theory Spec2Isabelle
  imports Main "HOL-Library.Char_ord" "HOL-Library.List_Lexorder" "HOL-Library.Monad_Syntax"
begin

section \<open>Python values of the DNS monitoring scripts\<close>

text \<open>
  The two scripts \<^verbatim>\<open>dns-monitoring/device-mapper.py\<close> and
  \<^verbatim>\<open>dns-monitoring/dns-traffic-analyzer.py\<close> keep all their data in the values
  that \<^verbatim>\<open>json.load\<close> returns: dictionaries with string keys, lists, strings,
  integers, booleans and \<^verbatim>\<open>None\<close>.  A dictionary is an association list in
  insertion order (Python dictionaries iterate in insertion order) whose keys are distinct.
  Floating-point numbers are left out of the model.  Strings are lists of 8-bit characters,
  so the model speaks about ASCII text.
\<close>

datatype json =
    JNull
  | JBool bool
  | JInt int
  | JStr string
  | JList "json list"
  | JObj "(string \<times> json) list"

text \<open>The exceptions the modelled code can raise.\<close>

datatype py_error = KeyError | TypeError | AttributeError

subsection \<open>Dictionaries\<close>

text \<open>
  \<^verbatim>\<open>d[k] = v\<close> on a dictionary: an existing key keeps its position and gets the new
  value, a new key is appended.
\<close>

fun dict_set :: "('k \<times> 'v) list \<Rightarrow> 'k \<Rightarrow> 'v \<Rightarrow> ('k \<times> 'v) list" where
  "dict_set [] k v = [(k, v)]"
| "dict_set ((k', v') # kvs) k v =
     (if k' = k then (k', v) # kvs else (k', v') # dict_set kvs k v)"

text \<open>\<^verbatim>\<open>d.get(k, default)\<close> on a dictionary, and a \<^verbatim>\<open>defaultdict\<close> read at \<open>k\<close>.\<close>

definition dict_get :: "('k \<times> 'v) list \<Rightarrow> 'k \<Rightarrow> 'v \<Rightarrow> 'v" where
  "dict_get kvs k dflt = (case map_of kvs k of None \<Rightarrow> dflt | Some v \<Rightarrow> v)"

text \<open>\<^verbatim>\<open>p in s\<close> on two strings: \<open>p\<close> occurs in \<open>s\<close> as a contiguous piece.\<close>

fun is_substring :: "string \<Rightarrow> string \<Rightarrow> bool" where
  "is_substring p [] = (p = [])"
| "is_substring p (c # cs) = (take (length p) (c # cs) = p \<or> is_substring p cs)"

subsection \<open>The dynamically typed operations\<close>

text \<open>
  Every operation the scripts apply to a loaded value, with the exception Python raises when
  the value has the wrong type.  The subscript and the membership test are only ever used
  with a string as key.
\<close>

text \<open>\<^verbatim>\<open>x[k]\<close>\<close>

fun py_getitem :: "json \<Rightarrow> string \<Rightarrow> py_error + json" where
  "py_getitem (JObj kvs) k = (case map_of kvs k of None \<Rightarrow> Inl KeyError | Some v \<Rightarrow> Inr v)"
| "py_getitem JNull k = Inl TypeError"
| "py_getitem (JBool b) k = Inl TypeError"
| "py_getitem (JInt i) k = Inl TypeError"
| "py_getitem (JStr s) k = Inl TypeError"
| "py_getitem (JList xs) k = Inl TypeError"

text \<open>\<^verbatim>\<open>x[k] = v\<close>; the result is the value \<open>x\<close> after the assignment.\<close>

fun py_setitem :: "json \<Rightarrow> string \<Rightarrow> json \<Rightarrow> py_error + json" where
  "py_setitem (JObj kvs) k v = Inr (JObj (dict_set kvs k v))"
| "py_setitem JNull k v = Inl TypeError"
| "py_setitem (JBool b) k v = Inl TypeError"
| "py_setitem (JInt i) k v = Inl TypeError"
| "py_setitem (JStr s) k v = Inl TypeError"
| "py_setitem (JList xs) k v = Inl TypeError"

text \<open>\<^verbatim>\<open>k in x\<close>\<close>

fun py_contains :: "json \<Rightarrow> string \<Rightarrow> py_error + bool" where
  "py_contains (JObj kvs) k = Inr (k \<in> set (map fst kvs))"
| "py_contains (JList xs) k = Inr (JStr k \<in> set xs)"
| "py_contains (JStr s) k = Inr (is_substring k s)"
| "py_contains JNull k = Inl TypeError"
| "py_contains (JBool b) k = Inl TypeError"
| "py_contains (JInt i) k = Inl TypeError"

text \<open>\<^verbatim>\<open>x.get(k, default)\<close>: only a dictionary has the method.\<close>

fun py_get :: "json \<Rightarrow> string \<Rightarrow> json \<Rightarrow> py_error + json" where
  "py_get (JObj kvs) k dflt = Inr (dict_get kvs k dflt)"
| "py_get JNull k dflt = Inl AttributeError"
| "py_get (JBool b) k dflt = Inl AttributeError"
| "py_get (JInt i) k dflt = Inl AttributeError"
| "py_get (JStr s) k dflt = Inl AttributeError"
| "py_get (JList xs) k dflt = Inl AttributeError"

text \<open>\<^verbatim>\<open>len(x)\<close>\<close>

fun py_len :: "json \<Rightarrow> py_error + nat" where
  "py_len (JObj kvs) = Inr (length kvs)"
| "py_len (JList xs) = Inr (length xs)"
| "py_len (JStr s) = Inr (length s)"
| "py_len JNull = Inl TypeError"
| "py_len (JBool b) = Inl TypeError"
| "py_len (JInt i) = Inl TypeError"

text \<open>
  \<^verbatim>\<open>x[k1][k2] = v\<close>: the inner object is fetched, assigned to in place, and is still
  the object stored under \<open>k1\<close>.
\<close>

definition setitem_in :: "json \<Rightarrow> string \<Rightarrow> string \<Rightarrow> json \<Rightarrow> py_error + json" where
  "setitem_in x k1 k2 v =
     (case py_getitem x k1 of
        Inl e \<Rightarrow> Inl e
      | Inr inner \<Rightarrow>
          (case py_setitem inner k2 v of
             Inl e \<Rightarrow> Inl e
           | Inr inner' \<Rightarrow> py_setitem x k1 inner'))"

text \<open>\<^verbatim>\<open>x[k1][k2][k3] = v\<close>\<close>

definition setitem_in2 :: "json \<Rightarrow> string \<Rightarrow> string \<Rightarrow> string \<Rightarrow> json \<Rightarrow> py_error + json" where
  "setitem_in2 x k1 k2 k3 v =
     (case py_getitem x k1 of
        Inl e \<Rightarrow> Inl e
      | Inr inner \<Rightarrow>
          (case setitem_in inner k2 k3 v of
             Inl e \<Rightarrow> Inl e
           | Inr inner' \<Rightarrow> py_setitem x k1 inner'))"

text \<open>\<^verbatim>\<open>x[k1][k2]\<close> and \<^verbatim>\<open>x[k1][k2][k3]\<close>, read.\<close>

definition getitem_in :: "json \<Rightarrow> string \<Rightarrow> string \<Rightarrow> py_error + json" where
  "getitem_in x k1 k2 =
     (case py_getitem x k1 of Inl e \<Rightarrow> Inl e | Inr inner \<Rightarrow> py_getitem inner k2)"

definition getitem_in2 :: "json \<Rightarrow> string \<Rightarrow> string \<Rightarrow> string \<Rightarrow> py_error + json" where
  "getitem_in2 x k1 k2 k3 =
     (case py_getitem x k1 of Inl e \<Rightarrow> Inl e | Inr inner \<Rightarrow> getitem_in inner k2 k3)"

section \<open>The device registry: \<^verbatim>\<open>DeviceMapper\<close>\<close>

subsection \<open>Files\<close>

text \<open>
  The \<^verbatim>\<open>json\<close> module is a library boundary.  A file is modelled by what
  \<^verbatim>\<open>json.load\<close> makes of it: it is absent (\<^verbatim>\<open>FileNotFoundError\<close>), its text
  does not decode (\<^verbatim>\<open>JSONDecodeError\<close>), or it decodes to a value.  The text that
  \<^verbatim>\<open>json.dump\<close> writes for a value decodes to that value: the mapper only ever
  holds what \<^verbatim>\<open>json.load\<close> returned and the strings, integers, lists of strings
  and dictionaries with string keys that the code itself stores.

  \<^verbatim>\<open>open(path, 'w')\<close> truncates the file before anything is written.  The
  environment decides how a write goes: it completes; \<^verbatim>\<open>open\<close> raises and the file
  is as before; or the file has been opened (so truncated) and the writing stops before the
  document is complete, which leaves a proper prefix of the text of a dictionary behind, and
  such a prefix does not decode.
\<close>

datatype file_content = Missing | Corrupt | Doc json

type_synonym filesystem = "string \<Rightarrow> file_content"

datatype write_outcome = WriteOk | OpenFails | WriteFails

subsection \<open>State\<close>

record mapper =
  device_map_file :: string
  data :: json

text \<open>
  \<^verbatim>\<open>_create_empty_map\<close>; \<open>today\<close> is the reading of
  \<^verbatim>\<open>datetime.now().strftime("%Y-%m-%d")\<close>.
\<close>

definition create_empty_map :: "string \<Rightarrow> json" where
  "create_empty_map today =
     JObj [
       (''metadata'', JObj [
          (''last_updated'', JStr today),
          (''network_range'', JStr ''192.168.1.0/24''),
          (''total_devices'', JInt 0),
          (''source'', JStr ''Control D DNS log analysis'')]),
       (''devices'', JObj []),
       (''network_insights'', JObj [
          (''device_types'', JObj []),
          (''top_services'', JObj []),
          (''activity_patterns'', JObj [])])]"

text \<open>\<^verbatim>\<open>_load_device_map\<close>\<close>

definition load_device_map :: "string \<Rightarrow> filesystem \<Rightarrow> string \<Rightarrow> json" where
  "load_device_map today fs path =
     (case fs path of
        Doc v \<Rightarrow> v
      | Missing \<Rightarrow> create_empty_map today
      | Corrupt \<Rightarrow> create_empty_map today)"

text \<open>\<^verbatim>\<open>__init__\<close>\<close>

definition init_mapper :: "string \<Rightarrow> filesystem \<Rightarrow> string \<Rightarrow> mapper" where
  "init_mapper today fs path =
     \<lparr>device_map_file = path, data = load_device_map today fs path\<rparr>"

text \<open>
  \<^verbatim>\<open>save_device_map\<close>.  The two metadata assignments stand before the
  \<^verbatim>\<open>try\<close>, so what they raise escapes the method (\<open>Inl\<close>).  Inside the
  \<^verbatim>\<open>try\<close> the file named \<open>device_map_file\<close> itself is opened for writing;
  every exception there is caught and the method returns \<^verbatim>\<open>False\<close>.
  The result is the file system, the mapper and the returned flag.
\<close>

definition save_device_map ::
    "string \<Rightarrow> write_outcome \<Rightarrow> filesystem \<Rightarrow> mapper \<Rightarrow> py_error + (filesystem \<times> mapper \<times> bool)" where
  "save_device_map today io fs self =
     (case setitem_in (data self) ''metadata'' ''last_updated'' (JStr today) of
        Inl e \<Rightarrow> Inl e
      | Inr d1 \<Rightarrow>
     (case py_getitem d1 ''devices'' of
        Inl e \<Rightarrow> Inl e
      | Inr devs \<Rightarrow>
     (case py_len devs of
        Inl e \<Rightarrow> Inl e
      | Inr n \<Rightarrow>
     (case setitem_in d1 ''metadata'' ''total_devices'' (JInt (int n)) of
        Inl e \<Rightarrow> Inl e
      | Inr d2 \<Rightarrow>
          Inr (case io of
                 WriteOk \<Rightarrow> (fs(device_map_file self := Doc d2), self\<lparr>data := d2\<rparr>, True)
               | OpenFails \<Rightarrow> (fs, self\<lparr>data := d2\<rparr>, False)
               | WriteFails \<Rightarrow> (fs(device_map_file self := Corrupt), self\<lparr>data := d2\<rparr>, False))))))"

text \<open>
  \<^verbatim>\<open>add_device\<close>; \<open>now\<close> is the reading of
  \<^verbatim>\<open>datetime.now().strftime("%Y-%m-%d %H:%M:%S")\<close>.  The record stored under
  \<open>ip\<close> is a new dictionary of exactly five entries.
\<close>

definition add_device ::
    "string \<Rightarrow> string \<Rightarrow> string \<Rightarrow> string \<Rightarrow> string \<Rightarrow> string \<Rightarrow> mapper \<Rightarrow> py_error + mapper" where
  "add_device now ip name device_type category description self =
     (case setitem_in (data self) ''devices'' ip
             (JObj [
                (''name'', JStr name),
                (''type'', JStr device_type),
                (''category'', JStr category),
                (''description'', JStr description),
                (''added'', JStr now)]) of
        Inl e \<Rightarrow> Inl e
      | Inr d' \<Rightarrow> Inr (self\<lparr>data := d'\<rparr>))"

section \<open>Reading the resolver log\<close>

subsection \<open>Log lines\<close>

text \<open>
  A line of the log is modelled by what \<^verbatim>\<open>json.loads(line.strip())\<close> makes of it:
  it raises \<^verbatim>\<open>JSONDecodeError\<close>, or it returns a value, which need not be a
  dictionary.  An absent log file is \<open>None\<close>.
\<close>

datatype log_line = NotJson | Json json

subsection \<open>The query pattern\<close>

text \<open>
  Both scripts search the message for the regular expression
  \<^verbatim>\<open>(\d+\.\d+\.\d+\.\d+):\d+ \(([^)]+)\) -> listener\.\d+: (\w+) (.+)\<close>
  (the device mapper groups only the address and the domain).  Each repetition in it is
  followed by a character outside its class, or ends the pattern, so the greedy match is
  the only one a backtracking matcher can find from a given start; \<^verbatim>\<open>re.search\<close>
  takes the leftmost start that matches.  The character classes are the ASCII ones.
\<close>

definition is_digit :: "char \<Rightarrow> bool" where
  "is_digit c = (CHR ''0'' \<le> c \<and> c \<le> CHR ''9'')"

definition is_word :: "char \<Rightarrow> bool" where
  "is_word c =
     (is_digit c \<or> (CHR ''a'' \<le> c \<and> c \<le> CHR ''z'') \<or> (CHR ''A'' \<le> c \<and> c \<le> CHR ''Z'') \<or> c = CHR ''_'')"

text \<open>One or more characters of a class, as many as there are; the rest of the text.\<close>

definition many1 :: "(char \<Rightarrow> bool) \<Rightarrow> string \<Rightarrow> (string \<times> string) option" where
  "many1 p s = (if takeWhile p s = [] then None else Some (takeWhile p s, dropWhile p s))"

text \<open>A literal piece of the pattern; the rest of the text.\<close>

definition lit :: "string \<Rightarrow> string \<Rightarrow> string option" where
  "lit l s = (if take (length l) s = l then Some (drop (length l) s) else None)"

text \<open>
  The pattern matched at the start of the text: the four groups (client address, resolver
  information, query type, domain).
\<close>

definition match_query :: "string \<Rightarrow> (string \<times> string \<times> string \<times> string) option" where
  "match_query s0 = do {
     (a, s1) \<leftarrow> many1 is_digit s0;
     s2 \<leftarrow> lit ''.'' s1;
     (b, s3) \<leftarrow> many1 is_digit s2;
     s4 \<leftarrow> lit ''.'' s3;
     (c, s5) \<leftarrow> many1 is_digit s4;
     s6 \<leftarrow> lit ''.'' s5;
     (d, s7) \<leftarrow> many1 is_digit s6;
     s8 \<leftarrow> lit '':'' s7;
     (port, s9) \<leftarrow> many1 is_digit s8;
     s10 \<leftarrow> lit '' ('' s9;
     (resolver, s11) \<leftarrow> many1 (\<lambda>x. x \<noteq> CHR '')'') s10;
     s12 \<leftarrow> lit '') -> listener.'' s11;
     (n, s13) \<leftarrow> many1 is_digit s12;
     s14 \<leftarrow> lit '': '' s13;
     (qtype, s15) \<leftarrow> many1 is_word s14;
     s16 \<leftarrow> lit '' '' s15;
     (dname, s17) \<leftarrow> many1 (\<lambda>x. x \<noteq> CHR 0x0A) s16;
     Some (a @ ''.'' @ b @ ''.'' @ c @ ''.'' @ d, resolver, qtype, dname)
   }"

text \<open>\<^verbatim>\<open>re.search\<close>: the match at the leftmost start that has one.\<close>

fun re_search :: "string \<Rightarrow> (string \<times> string \<times> string \<times> string) option" where
  "re_search [] = match_query []"
| "re_search (c # cs) =
     (case match_query (c # cs) of Some m \<Rightarrow> Some m | None \<Rightarrow> re_search cs)"

text \<open>
  What both scripts do with a decoded line up to the match:
  \<^verbatim>\<open>if 'QUERY' in log_entry.get('message', ''):\<close>,
  \<^verbatim>\<open>message = log_entry['message']\<close>, \<^verbatim>\<open>re.search(pattern, message)\<close>.
  The search raises \<^verbatim>\<open>TypeError\<close> on a message that is not a string.
\<close>

definition find_query :: "json \<Rightarrow> py_error + (string \<times> string \<times> string \<times> string) option" where
  "find_query log_entry =
     (case py_get log_entry ''message'' (JStr []) of
        Inl e \<Rightarrow> Inl e
      | Inr m \<Rightarrow>
     (case py_contains m ''QUERY'' of
        Inl e \<Rightarrow> Inl e
      | Inr False \<Rightarrow> Inr None
      | Inr True \<Rightarrow>
     (case py_getitem log_entry ''message'' of
        Inl e \<Rightarrow> Inl e
      | Inr (JStr message) \<Rightarrow> Inr (re_search message)
      | Inr _ \<Rightarrow> Inl TypeError)))"

section \<open>The traffic analyzer: \<^verbatim>\<open>DNSTrafficAnalyzer\<close>\<close>

record query_info =
  timestamp :: json
  client_ip :: string
  query_type :: string
  domain :: string
  level :: json

record analyzer =
  queries :: "query_info list"
  client_stats :: "(string \<times> query_info list) list"
  domain_stats :: "(string \<times> int) list"
  query_types :: "(string \<times> int) list"

definition init_analyzer :: analyzer where
  "init_analyzer = \<lparr>queries = [], client_stats = [], domain_stats = [], query_types = []\<rparr>"

text \<open>\<^verbatim>\<open>counter[k] += 1\<close> on a \<^verbatim>\<open>Counter\<close> or a \<^verbatim>\<open>defaultdict(int)\<close>\<close>

definition count_up :: "(string \<times> int) list \<Rightarrow> string \<Rightarrow> (string \<times> int) list" where
  "count_up counter k = dict_set counter k (dict_get counter k 0 + 1)"

text \<open>
  \<^verbatim>\<open>parse_log_line\<close>.  Only \<^verbatim>\<open>JSONDecodeError\<close> is caught; any other
  exception escapes (\<open>Inl\<close>), and it is raised before the analyzer is changed.
\<close>

definition parse_log_line :: "log_line \<Rightarrow> analyzer \<Rightarrow> py_error + (query_info option \<times> analyzer)" where
  "parse_log_line line self =
     (case line of
        NotJson \<Rightarrow> Inr (None, self)
      | Json log_entry \<Rightarrow>
          (case find_query log_entry of
             Inl e \<Rightarrow> Inl e
           | Inr None \<Rightarrow> Inr (None, self)
           | Inr (Some (ip, resolver, qtype, dname)) \<Rightarrow>
               (case py_get log_entry ''time'' (JStr []) of
                  Inl e \<Rightarrow> Inl e
                | Inr time_field \<Rightarrow>
               (case py_get log_entry ''level'' (JStr ''info'') of
                  Inl e \<Rightarrow> Inl e
                | Inr lvl \<Rightarrow>
                   (let info = \<lparr>timestamp = time_field, client_ip = ip, query_type = qtype,
                                domain = dname, level = lvl\<rparr>
                    in Inr (Some info,
                         self\<lparr>queries := queries self @ [info],
                              client_stats := dict_set (client_stats self) ip
                                 (dict_get (client_stats self) ip [] @ [info]),
                              domain_stats := count_up (domain_stats self) dname,
                              query_types := count_up (query_types self) qtype\<rparr>))))))"

text \<open>The loop of \<^verbatim>\<open>analyze_log_file\<close> over the lines.\<close>

fun parse_lines :: "log_line list \<Rightarrow> analyzer \<Rightarrow> py_error + analyzer" where
  "parse_lines [] self = Inr self"
| "parse_lines (line # rest) self =
     (case parse_log_line line self of
        Inl e \<Rightarrow> Inl e
      | Inr (q, self') \<Rightarrow> parse_lines rest self')"

text \<open>
  \<^verbatim>\<open>analyze_log_file\<close>: only \<^verbatim>\<open>FileNotFoundError\<close> is caught, so an
  exception of \<^verbatim>\<open>parse_log_line\<close> escapes it.
\<close>

definition analyze_log_file :: "log_line list option \<Rightarrow> analyzer \<Rightarrow> py_error + (analyzer \<times> bool)" where
  "analyze_log_file log_file self =
     (case log_file of
        None \<Rightarrow> Inr (self, False)
      | Some lines \<Rightarrow>
          (case parse_lines lines self of
             Inl e \<Rightarrow> Inl e
           | Inr self' \<Rightarrow> Inr (self', True)))"

section \<open>Reconciliation: \<^verbatim>\<open>DeviceMapper.analyze_dns_log\<close>\<close>

subsection \<open>The aggregation of a run\<close>

text \<open>
  \<^verbatim>\<open>device_activity\<close> is a \<^verbatim>\<open>defaultdict(int)\<close>, \<^verbatim>\<open>device_domains\<close> a
  \<^verbatim>\<open>defaultdict(set)\<close>.  A set is kept as the list of its elements in the order
  they were first added.  That is not the order in which Python iterates over the set:
  the iteration order of a set of strings follows their hash values, which change from
  process to process.  The iteration order is a parameter \<open>set_iter\<close> of the model,
  applied where the code calls \<^verbatim>\<open>list(...)\<close> on the set; all that is known of
  it is that it lists the elements of the set, each once.
\<close>

type_synonym activity = "(string \<times> int) list"
type_synonym domain_sets = "(string \<times> string list) list"

definition set_iter_ok :: "(string list \<Rightarrow> string list) \<Rightarrow> bool" where
  "set_iter_ok set_iter = (\<forall>xs. distinct xs \<longrightarrow> distinct (set_iter xs) \<and> set (set_iter xs) = set xs)"

text \<open>\<^verbatim>\<open>s.add(x)\<close>\<close>

definition set_add :: "string list \<Rightarrow> string \<Rightarrow> string list" where
  "set_add s x = (if x \<in> set s then s else s @ [x])"

text \<open>\<^verbatim>\<open>device_domains[ip]\<close>, read: an absent key gives the empty set.\<close>

definition domains_of :: "domain_sets \<Rightarrow> string \<Rightarrow> string list" where
  "domains_of device_domains ip = dict_get device_domains ip []"

text \<open>
  One turn of the loop over the lines (source lines 103 to 117): a line that does not
  decode is skipped; every other exception leaves the loop.
\<close>

definition scan_line :: "log_line \<Rightarrow> activity \<times> domain_sets \<Rightarrow> py_error + (activity \<times> domain_sets)" where
  "scan_line line acc =
     (case line of
        NotJson \<Rightarrow> Inr acc
      | Json log_entry \<Rightarrow>
          (case find_query log_entry of
             Inl e \<Rightarrow> Inl e
           | Inr None \<Rightarrow> Inr acc
           | Inr (Some (ip, resolver, qtype, dname)) \<Rightarrow>
               Inr (count_up (fst acc) ip,
                    dict_set (snd acc) ip (set_add (domains_of (snd acc) ip) dname))))"

fun scan_lines :: "log_line list \<Rightarrow> activity \<times> domain_sets \<Rightarrow> py_error + (activity \<times> domain_sets)" where
  "scan_lines [] acc = Inr acc"
| "scan_lines (line # rest) acc =
     (case scan_line line acc of Inl e \<Rightarrow> Inl e | Inr acc' \<Rightarrow> scan_lines rest acc')"

subsection \<open>Formatting\<close>

text \<open>\<^verbatim>\<open>s.split(c)\<close>: never empty.  \<^verbatim>\<open>ip.split('.')[-1]\<close> is its last element.\<close>

fun split_on :: "char \<Rightarrow> string \<Rightarrow> string list" where
  "split_on c [] = [[]]"
| "split_on c (x # xs) =
     (if x = c then [] # split_on c xs
      else (case split_on c xs of [] \<Rightarrow> [[x]] | piece # pieces \<Rightarrow> (x # piece) # pieces))"

definition last_octet :: "string \<Rightarrow> string" where
  "last_octet ip = last (split_on (CHR ''.'') ip)"

text \<open>The decimal text of an integer, as an f-string prints it.\<close>

fun str_of_nat :: "nat \<Rightarrow> string" where
  "str_of_nat n =
     (if n < 10 then [''0123456789'' ! n] else str_of_nat (n div 10) @ [''0123456789'' ! (n mod 10)])"

definition str_of_int :: "int \<Rightarrow> string" where
  "str_of_int i = (if i < 0 then CHR ''-'' # str_of_nat (nat (- i)) else str_of_nat (nat i))"

subsection \<open>Updating the registry\<close>

text \<open>\<^verbatim>\<open>list(device_domains[ip])[:5]\<close>\<close>

definition first5_domains :: "(string list \<Rightarrow> string list) \<Rightarrow> domain_sets \<Rightarrow> string \<Rightarrow> json" where
  "first5_domains set_iter device_domains ip =
     JList (map JStr (take 5 (set_iter (domains_of device_domains ip))))"

text \<open>
  The two assignments that end both branches (source lines 122 to 123 and 133 to 134).
  A statement that raises leaves the mapper as the statements before it made it; the
  exception is the second component.
\<close>

definition set_activity ::
    "(string list \<Rightarrow> string list) \<Rightarrow> domain_sets \<Rightarrow> string \<Rightarrow> int \<Rightarrow> mapper \<Rightarrow> mapper \<times> py_error option" where
  "set_activity set_iter device_domains ip count self =
     (case setitem_in2 (data self) ''devices'' ip ''query_count'' (JInt count) of
        Inl e \<Rightarrow> (self, Some e)
      | Inr d1 \<Rightarrow>
          (case setitem_in2 d1 ''devices'' ip ''common_domains''
                  (first5_domains set_iter device_domains ip) of
             Inl e \<Rightarrow> (self\<lparr>data := d1\<rparr>, Some e)
           | Inr d2 \<Rightarrow> (self\<lparr>data := d2\<rparr>, None)))"

text \<open>
  The body of the loop over \<^verbatim>\<open>device_activity.items()\<close> (source lines 121 to 134).
  \<open>clock ip\<close> is the reading of the clock when \<^verbatim>\<open>add_device\<close> runs for \<open>ip\<close>
  (a run provisions an address at most once).
\<close>

definition update_device ::
    "(string \<Rightarrow> string) \<Rightarrow> (string list \<Rightarrow> string list) \<Rightarrow> domain_sets \<Rightarrow> string \<Rightarrow> int \<Rightarrow> mapper
      \<Rightarrow> mapper \<times> py_error option" where
  "update_device clock set_iter device_domains ip count self =
     (case py_getitem (data self) ''devices'' of
        Inl e \<Rightarrow> (self, Some e)
      | Inr devs \<Rightarrow>
     (case py_contains devs ip of
        Inl e \<Rightarrow> (self, Some e)
      | Inr True \<Rightarrow> set_activity set_iter device_domains ip count self
      | Inr False \<Rightarrow>
          (case add_device (clock ip) ip
                  (''Auto-detected-'' @ last_octet ip) ''Unknown'' ''Unknown''
                  (''Auto-detected from DNS logs with '' @ str_of_int count @ '' queries'') self of
             Inl e \<Rightarrow> (self, Some e)
           | Inr self' \<Rightarrow> set_activity set_iter device_domains ip count self')))"

text \<open>
  A registry whose device records are all dictionaries, as \<^verbatim>\<open>add_device\<close> and
  the loop above make them.
\<close>

fun is_dict :: "json \<Rightarrow> bool" where
  "is_dict (JObj kvs) = True"
| "is_dict _ = False"

definition records_are_dicts :: "json \<Rightarrow> bool" where
  "records_are_dicts d =
     (case py_getitem d ''devices'' of
        Inr (JObj devs) \<Rightarrow> list_all is_dict (map snd devs)
      | _ \<Rightarrow> False)"

text \<open>The loop itself: it ends at the first exception.\<close>

fun update_devices ::
    "(string \<Rightarrow> string) \<Rightarrow> (string list \<Rightarrow> string list) \<Rightarrow> domain_sets \<Rightarrow> activity \<Rightarrow> mapper
      \<Rightarrow> mapper \<times> py_error option" where
  "update_devices clock set_iter device_domains [] self = (self, None)"
| "update_devices clock set_iter device_domains ((ip, count) # rest) self =
     (case update_device clock set_iter device_domains ip count self of
        (self', Some e) \<Rightarrow> (self', Some e)
      | (self', None) \<Rightarrow> update_devices clock set_iter device_domains rest self')"

text \<open>
  \<^verbatim>\<open>analyze_dns_log\<close>: one \<^verbatim>\<open>try\<close> around both loops.  An absent log file and
  every other exception make it return \<^verbatim>\<open>False\<close>; what the second loop had
  changed before the exception stays changed in memory.
\<close>

definition analyze_dns_log ::
    "(string \<Rightarrow> string) \<Rightarrow> (string list \<Rightarrow> string list) \<Rightarrow> log_line list option \<Rightarrow> mapper
      \<Rightarrow> mapper \<times> bool" where
  "analyze_dns_log clock set_iter log_file self =
     (case log_file of
        None \<Rightarrow> (self, False)
      | Some lines \<Rightarrow>
          (case scan_lines lines ([], []) of
             Inl e \<Rightarrow> (self, False)
           | Inr (device_activity, device_domains) \<Rightarrow>
               (case update_devices clock set_iter device_domains device_activity self of
                  (self', Some e) \<Rightarrow> (self', False)
                | (self', None) \<Rightarrow> (self', True))))"

section \<open>The routing table: \<^verbatim>\<open>generate_routing_table\<close>\<close>

text \<open>\<^verbatim>\<open>x.items()\<close>: only a dictionary has the method.\<close>

fun py_items :: "json \<Rightarrow> py_error + (string \<times> json) list" where
  "py_items (JObj kvs) = Inr kvs"
| "py_items JNull = Inl AttributeError"
| "py_items (JBool b) = Inl AttributeError"
| "py_items (JInt i) = Inl AttributeError"
| "py_items (JStr s) = Inl AttributeError"
| "py_items (JList xs) = Inl AttributeError"

text \<open>
  \<^verbatim>\<open>x[:3]\<close>: the first three elements of a list, the first three characters of a
  string.  A dictionary does not take a slice as key (\<^verbatim>\<open>TypeError\<close> up to
  Python 3.11, where a slice cannot be hashed).
\<close>

fun py_slice3 :: "json \<Rightarrow> py_error + json" where
  "py_slice3 (JList xs) = Inr (JList (take 3 xs))"
| "py_slice3 (JStr s) = Inr (JStr (take 3 s))"
| "py_slice3 (JObj kvs) = Inl TypeError"
| "py_slice3 JNull = Inl TypeError"
| "py_slice3 (JBool b) = Inl TypeError"
| "py_slice3 (JInt i) = Inl TypeError"

text \<open>
  A device record as the registry file format has it: a dictionary whose
  \<^verbatim>\<open>common_domains\<close>, when present, is a list.
\<close>

definition is_device_record :: "json \<Rightarrow> bool" where
  "is_device_record r =
     (case r of
        JObj flds \<Rightarrow>
          (case dict_get flds ''common_domains'' (JList []) of JList ds \<Rightarrow> True | _ \<Rightarrow> False)
      | _ \<Rightarrow> False)"

text \<open>The dictionary display of the loop body; its entries are evaluated in order.\<close>

definition routing_entry :: "string \<Rightarrow> json \<Rightarrow> py_error + json" where
  "routing_entry ip info =
     (case py_get info ''name'' (JStr ''Unknown'') of Inl e \<Rightarrow> Inl e | Inr name \<Rightarrow>
     (case py_get info ''type'' (JStr ''Unknown'') of Inl e \<Rightarrow> Inl e | Inr device_type \<Rightarrow>
     (case py_get info ''category'' (JStr ''Unknown'') of Inl e \<Rightarrow> Inl e | Inr category \<Rightarrow>
     (case py_get info ''query_count'' (JInt 0) of Inl e \<Rightarrow> Inl e | Inr activity \<Rightarrow>
     (case py_get info ''common_domains'' (JList []) of Inl e \<Rightarrow> Inl e | Inr doms \<Rightarrow>
     (case py_slice3 doms of Inl e \<Rightarrow> Inl e | Inr top_domains \<Rightarrow>
     (case py_get info ''added'' (JStr ''Unknown'') of Inl e \<Rightarrow> Inl e | Inr last_seen \<Rightarrow>
        Inr (JObj [
          (''ip'', JStr ip),
          (''name'', name),
          (''type'', device_type),
          (''category'', category),
          (''activity'', activity),
          (''top_domains'', top_domains),
          (''last_seen'', last_seen)]))))))))"

text \<open>The loop over the sorted items, appending to \<^verbatim>\<open>routing_table\<close>.\<close>

fun table_loop :: "(string \<times> json) list \<Rightarrow> json list \<Rightarrow> py_error + json list" where
  "table_loop [] routing_table = Inr routing_table"
| "table_loop ((ip, info) # rest) routing_table =
     (case routing_entry ip info of
        Inl e \<Rightarrow> Inl e
      | Inr entry \<Rightarrow> table_loop rest (routing_table @ [entry]))"

text \<open>
  \<^verbatim>\<open>generate_routing_table\<close>.  \<^verbatim>\<open>sorted\<close> orders the (key, value) pairs; the keys
  of a dictionary are distinct, so the order of the pairs is the order of the keys, which
  are strings and compare character by character.
\<close>

definition generate_routing_table :: "mapper \<Rightarrow> py_error + json list" where
  "generate_routing_table self =
     (case py_getitem (data self) ''devices'' of
        Inl e \<Rightarrow> Inl e
      | Inr devs \<Rightarrow>
          (case py_items devs of
             Inl e \<Rightarrow> Inl e
           | Inr items \<Rightarrow> table_loop (sort_key fst items) []))"

section \<open>Example data\<close>

text \<open>A registry file with one device, and a mapper that has loaded it.\<close>

definition registry_doc :: json where
  "registry_doc =
     JObj [
       (''metadata'', JObj [
          (''last_updated'', JStr ''2025-01-01''),
          (''network_range'', JStr ''192.168.1.0/24''),
          (''total_devices'', JInt 1),
          (''source'', JStr ''Control D DNS log analysis'')]),
       (''devices'', JObj [
          (''10.0.0.5'', JObj [
             (''name'', JStr ''Auto-detected-5''),
             (''type'', JStr ''Unknown''),
             (''category'', JStr ''Unknown''),
             (''description'', JStr ''Auto-detected from DNS logs with 7 queries''),
             (''added'', JStr ''2025-01-01 10:00:00''),
             (''query_count'', JInt 7),
             (''common_domains'', JList [JStr ''x.com''])])]),
       (''network_insights'', JObj [
          (''device_types'', JObj []),
          (''top_services'', JObj []),
          (''activity_patterns'', JObj [])])]"

definition registry_fs :: filesystem where
  "registry_fs path = (if path = ''device-map.json'' then Doc registry_doc else Missing)"

definition registry_mapper :: mapper where
  "registry_mapper = init_mapper ''2025-02-01'' registry_fs ''device-map.json''"

text \<open>A log line with a query of a client for a domain, and a clock that stands still.\<close>

definition query_line :: "string \<Rightarrow> string \<Rightarrow> log_line" where
  "query_line ip dname =
     Json (JObj [
       (''level'', JStr ''debug''),
       (''time'', JStr ''2025-01-01T10:00:00Z''),
       (''message'', JStr (''QUERY: '' @ ip @ '':53124 (resolver) -> listener.0: A '' @ dname))])"

definition fixed_clock :: "string \<Rightarrow> string" where
  "fixed_clock ip = ''2025-01-01 10:00:00''"

definition empty_mapper :: mapper where
  "empty_mapper = \<lparr>device_map_file = ''device-map.json'', data = create_empty_map ''2025-01-01''\<rparr>"

text \<open>A registry file in which the record of 10.0.0.1 is a string, not a dictionary.\<close>

definition broken_mapper :: mapper where
  "broken_mapper =
     \<lparr>device_map_file = ''device-map.json'',
      data = JObj [
        (''metadata'', JObj [
           (''last_updated'', JStr ''2025-01-01''),
           (''network_range'', JStr ''192.168.1.0/24''),
           (''total_devices'', JInt 3),
           (''source'', JStr ''Control D DNS log analysis'')]),
        (''devices'', JObj [
           (''10.0.0.1'', JStr ''printer''),
           (''10.0.0.2'', JObj [
              (''name'', JStr ''Laptop''),
              (''type'', JStr ''Computer''),
              (''category'', JStr ''Office''),
              (''description'', JStr ''''),
              (''added'', JStr ''2025-01-01 09:00:00'')]),
           (''10.0.0.3'', JObj [
              (''name'', JStr ''Phone''),
              (''type'', JStr ''Mobile''),
              (''category'', JStr ''Personal''),
              (''description'', JStr ''''),
              (''added'', JStr ''2025-01-01 09:05:00'')])]),
        (''network_insights'', JObj [
           (''device_types'', JObj []),
           (''top_services'', JObj []),
           (''activity_patterns'', JObj [])])]\<rparr>"

text \<open>A registry with two devices, 192.168.1.9 registered before 192.168.1.10.\<close>

definition lan_mapper :: mapper where
  "lan_mapper =
     \<lparr>device_map_file = ''device-map.json'',
      data = JObj [
        (''metadata'', JObj [
           (''last_updated'', JStr ''2025-01-01''),
           (''network_range'', JStr ''192.168.1.0/24''),
           (''total_devices'', JInt 2),
           (''source'', JStr ''Control D DNS log analysis'')]),
        (''devices'', JObj [
           (''192.168.1.9'', JObj [
              (''name'', JStr ''Laptop''),
              (''type'', JStr ''Computer''),
              (''category'', JStr ''Office''),
              (''description'', JStr ''''),
              (''added'', JStr ''2025-01-01 09:00:00''),
              (''query_count'', JInt 12),
              (''common_domains'', JList [JStr ''a.com'', JStr ''b.com'', JStr ''c.com'', JStr ''d.com''])]),
           (''192.168.1.10'', JObj [
              (''name'', JStr ''Phone''),
              (''type'', JStr ''Mobile''),
              (''category'', JStr ''Personal''),
              (''description'', JStr ''''),
              (''added'', JStr ''2025-01-02 08:00:00'')])]),
        (''network_insights'', JObj [
           (''device_types'', JObj []),
           (''top_services'', JObj []),
           (''activity_patterns'', JObj [])])]\<rparr>"

section \<open>Properties\<close>

subsection \<open>Dictionaries in insertion order\<close>

lemma map_of_dict_set: "map_of (dict_set kvs k v) = (map_of kvs)(k \<mapsto> v)"
  by (induction kvs) (auto simp: fun_eq_iff)

lemma keys_dict_set:
  "map fst (dict_set kvs k v) = (if k \<in> set (map fst kvs) then map fst kvs else map fst kvs @ [k])"
  by (induction kvs) force+

lemma distinct_dict_set: "distinct (map fst kvs) \<Longrightarrow> distinct (map fst (dict_set kvs k v))"
  by (simp add: keys_dict_set)

lemma dict_set_twice: "dict_set (dict_set kvs k v) k w = dict_set kvs k w"
  by (induction kvs) auto

lemma dict_get_dict_set: "dict_get (dict_set kvs k v) k' d = (if k' = k then v else dict_get kvs k' d)"
  by (simp add: dict_get_def map_of_dict_set)

subsection \<open>Nested subscripts\<close>

lemma py_getitem_Inr_iff:
  "py_getitem x k = Inr v \<longleftrightarrow> (\<exists>kvs. x = JObj kvs \<and> map_of kvs k = Some v)"
  by (cases x) (auto split: option.splits)

lemma py_setitem_Inr_iff:
  "py_setitem x k v = Inr x' \<longleftrightarrow> (\<exists>kvs. x = JObj kvs \<and> x' = JObj (dict_set kvs k v))"
  by (cases x) auto

lemma setitem_in_Inr_iff:
  "setitem_in x k1 k2 v = Inr x' \<longleftrightarrow>
     (\<exists>kvs inner. x = JObj kvs \<and> map_of kvs k1 = Some (JObj inner) \<and>
        x' = JObj (dict_set kvs k1 (JObj (dict_set inner k2 v))))"
  by (auto simp: setitem_in_def py_getitem_Inr_iff py_setitem_Inr_iff split: sum.splits)

lemma setitem_in2_Inr_iff:
  "setitem_in2 x k1 k2 k3 v = Inr x' \<longleftrightarrow>
     (\<exists>kvs a b. x = JObj kvs \<and> map_of kvs k1 = Some (JObj a) \<and> map_of a k2 = Some (JObj b) \<and>
        x' = JObj (dict_set kvs k1 (JObj (dict_set a k2 (JObj (dict_set b k3 v))))))"
proof
  assume "setitem_in2 x k1 k2 k3 v = Inr x'"
  then show "\<exists>kvs a b. x = JObj kvs \<and> map_of kvs k1 = Some (JObj a) \<and> map_of a k2 = Some (JObj b) \<and>
        x' = JObj (dict_set kvs k1 (JObj (dict_set a k2 (JObj (dict_set b k3 v)))))"
    by (auto simp: setitem_in2_def py_getitem_Inr_iff py_setitem_Inr_iff setitem_in_Inr_iff
        split: sum.splits)
next
  assume "\<exists>kvs a b. x = JObj kvs \<and> map_of kvs k1 = Some (JObj a) \<and> map_of a k2 = Some (JObj b) \<and>
        x' = JObj (dict_set kvs k1 (JObj (dict_set a k2 (JObj (dict_set b k3 v)))))"
  then obtain kvs a b where h: "x = JObj kvs" "map_of kvs k1 = Some (JObj a)"
      "map_of a k2 = Some (JObj b)"
      "x' = JObj (dict_set kvs k1 (JObj (dict_set a k2 (JObj (dict_set b k3 v)))))"
    by blast
  have "setitem_in (JObj a) k2 k3 v = Inr (JObj (dict_set a k2 (JObj (dict_set b k3 v))))"
    using h(3) by (simp add: setitem_in_Inr_iff)
  then show "setitem_in2 x k1 k2 k3 v = Inr x'"
    using h by (simp add: setitem_in2_def)
qed

lemma getitem_in2_via: 
  "getitem_in2 x k1 k2 k3 = (case getitem_in x k1 k2 of Inl e \<Rightarrow> Inl e | Inr r \<Rightarrow> py_getitem r k3)"
  by (simp add: getitem_in2_def getitem_in_def split: sum.splits)

subsection \<open>The example registry\<close>

lemma registry_mapper_eq:
  "registry_mapper = \<lparr>device_map_file = ''device-map.json'', data = registry_doc\<rparr>"
  by (simp add: registry_mapper_def init_mapper_def load_device_map_def registry_fs_def)

subsection \<open>What an assignment leaves alone\<close>

lemma getitem_in_JObj:
  "getitem_in (JObj kvs) k1 k2 =
     (case map_of kvs k1 of None \<Rightarrow> Inl KeyError | Some inner \<Rightarrow> py_getitem inner k2)"
  by (simp add: getitem_in_def split: option.splits)

lemma setitem_in_frame:
  assumes "setitem_in x k1 k2 v = Inr x'"
  shows "k \<noteq> k1 \<Longrightarrow> py_getitem x' k = py_getitem x k"
    and "k \<noteq> k2 \<Longrightarrow> getitem_in x' k1 k = getitem_in x k1 k"
  using assms by (auto simp: setitem_in_Inr_iff map_of_dict_set getitem_in_JObj)

lemma setitem_in2_frame:
  assumes "setitem_in2 x k1 k2 k3 v = Inr x'"
  shows "k \<noteq> k1 \<Longrightarrow> py_getitem x' k = py_getitem x k"
    and "k \<noteq> k2 \<Longrightarrow> getitem_in x' k1 k = getitem_in x k1 k"
  using assms by (auto simp: setitem_in2_Inr_iff map_of_dict_set getitem_in_JObj)

lemma setitem_in2_again:
  assumes "setitem_in2 x k1 k2 k3 v = Inr x'"
  shows "\<exists>x''. setitem_in2 x' k1 k2 k4 w = Inr x''"
  using assms by (auto simp: setitem_in2_Inr_iff map_of_dict_set)

subsection \<open>The two assignments\<close>

lemma set_activity_ok:
  assumes "data self = JObj kvs" "map_of kvs ''devices'' = Some (JObj a)" "map_of a ip = Some (JObj b)"
  shows "set_activity set_iter doms ip c self =
     (self\<lparr>data := JObj (dict_set kvs ''devices'' (JObj (dict_set a ip
        (JObj (dict_set (dict_set b ''query_count'' (JInt c)) ''common_domains''
                 (first5_domains set_iter doms ip))))))\<rparr>, None)"
proof -
  let ?d1 = "JObj (dict_set kvs ''devices'' (JObj (dict_set a ip (JObj (dict_set b ''query_count'' (JInt c))))))"
  have 1: "setitem_in2 (data self) ''devices'' ip ''query_count'' (JInt c) = Inr ?d1"
    using assms by (simp add: setitem_in2_Inr_iff)
  have 2: "setitem_in2 ?d1 ''devices'' ip ''common_domains'' (first5_domains set_iter doms ip) =
      Inr (JObj (dict_set kvs ''devices'' (JObj (dict_set a ip
        (JObj (dict_set (dict_set b ''query_count'' (JInt c)) ''common_domains''
                 (first5_domains set_iter doms ip)))))))"
    by (simp add: setitem_in2_Inr_iff map_of_dict_set dict_set_twice)
  show ?thesis
    by (simp add: set_activity_def 1 2)
qed

lemma set_activity_fails:
  assumes "set_activity set_iter doms ip c self = (self', Some e)"
  shows "self' = self"
proof (cases "setitem_in2 (data self) ''devices'' ip ''query_count'' (JInt c)")
  case (Inl e')
  with assms show ?thesis by (simp add: set_activity_def)
next
  case (Inr d1)
  from setitem_in2_again[OF Inr] obtain d2 where
    "setitem_in2 d1 ''devices'' ip ''common_domains'' (first5_domains set_iter doms ip) = Inr d2"
    by blast
  with Inr assms show ?thesis by (simp add: set_activity_def)
qed

lemma set_activity_done:
  assumes "set_activity set_iter doms ip c self = (self', None)"
  shows "\<exists>kvs a b. data self = JObj kvs \<and> map_of kvs ''devices'' = Some (JObj a) \<and>
           map_of a ip = Some (JObj b) \<and>
           self' = self\<lparr>data := JObj (dict_set kvs ''devices'' (JObj (dict_set a ip
             (JObj (dict_set (dict_set b ''query_count'' (JInt c)) ''common_domains''
                 (first5_domains set_iter doms ip))))))\<rparr>"
proof (cases "setitem_in2 (data self) ''devices'' ip ''query_count'' (JInt c)")
  case (Inl e')
  with assms show ?thesis by (simp add: set_activity_def)
next
  case (Inr d1)
  then obtain kvs a b where h: "data self = JObj kvs" "map_of kvs ''devices'' = Some (JObj a)"
      "map_of a ip = Some (JObj b)"
    by (auto simp: setitem_in2_Inr_iff)
  from set_activity_ok[OF h, of set_iter doms c] assms h show ?thesis by auto
qed

lemma set_activity_frame:
  assumes "set_activity set_iter doms ip c self = (self', r)"
  shows "device_map_file self' = device_map_file self"
    and "k \<noteq> ''devices'' \<Longrightarrow> py_getitem (data self') k = py_getitem (data self) k"
    and "ip' \<noteq> ip \<Longrightarrow> getitem_in (data self') ''devices'' ip' = getitem_in (data self) ''devices'' ip'"
proof -
  have "device_map_file self' = device_map_file self \<and>
     (k \<noteq> ''devices'' \<longrightarrow> py_getitem (data self') k = py_getitem (data self) k) \<and>
     (ip' \<noteq> ip \<longrightarrow> getitem_in (data self') ''devices'' ip' = getitem_in (data self) ''devices'' ip')"
  proof (cases r)
    case None
    with assms set_activity_done[of set_iter doms ip c self self'] show ?thesis
      by (auto simp: map_of_dict_set getitem_in_JObj)
  next
    case (Some e)
    with assms set_activity_fails[of set_iter doms ip c self self' e] show ?thesis by simp
  qed
  then show "device_map_file self' = device_map_file self"
    and "k \<noteq> ''devices'' \<Longrightarrow> py_getitem (data self') k = py_getitem (data self) k"
    and "ip' \<noteq> ip \<Longrightarrow> getitem_in (data self') ''devices'' ip' = getitem_in (data self) ''devices'' ip'"
    by simp_all
qed

subsection \<open>One device\<close>

lemma add_device_Inr_iff:
  "add_device now ip name device_type category description self = Inr self' \<longleftrightarrow>
     (\<exists>kvs a. data self = JObj kvs \<and> map_of kvs ''devices'' = Some (JObj a) \<and>
        self' = self\<lparr>data := JObj (dict_set kvs ''devices'' (JObj (dict_set a ip
          (JObj [(''name'', JStr name), (''type'', JStr device_type), (''category'', JStr category),
                 (''description'', JStr description), (''added'', JStr now)]))))\<rparr>)"
proof -
  have "add_device now ip name device_type category description self = Inr self' \<longleftrightarrow>
     (\<exists>d'. setitem_in (data self) ''devices'' ip
          (JObj [(''name'', JStr name), (''type'', JStr device_type), (''category'', JStr category),
                 (''description'', JStr description), (''added'', JStr now)]) = Inr d' \<and>
        self' = self\<lparr>data := d'\<rparr>)"
    by (auto simp: add_device_def split: sum.splits)
  then show ?thesis
    unfolding setitem_in_Inr_iff by blast
qed

lemma update_device_fails:
  assumes "update_device clock set_iter doms ip c self = (self', Some e)"
  shows "self' = self"
proof (cases "py_getitem (data self) ''devices''")
  case (Inl e')
  with assms show ?thesis by (simp add: update_device_def)
next
  case devs: (Inr devs)
  show ?thesis
  proof (cases "py_contains devs ip")
    case (Inl e')
    with devs assms show ?thesis by (simp add: update_device_def)
  next
    case (Inr registered)
    show ?thesis
    proof (cases registered)
      case True
      with devs Inr assms have "set_activity set_iter doms ip c self = (self', Some e)"
        by (simp add: update_device_def)
      then show ?thesis by (rule set_activity_fails)
    next
      case False
      show ?thesis
      proof (cases "add_device (clock ip) ip (''Auto-detected-'' @ last_octet ip) ''Unknown'' ''Unknown''
                  (''Auto-detected from DNS logs with '' @ str_of_int c @ '' queries'') self")
        case (Inl e')
        with devs Inr False assms show ?thesis by (simp add: update_device_def)
      next
        case added: (Inr self1)
        with devs Inr False assms have sa: "set_activity set_iter doms ip c self1 = (self', Some e)"
          by (simp add: update_device_def)
        from added obtain kvs a r where h: "data self1 = JObj (dict_set kvs ''devices'' (JObj (dict_set a ip (JObj r))))"
          by (auto simp: add_device_Inr_iff)
        have "set_activity set_iter doms ip c self1 =
           (self1\<lparr>data := JObj (dict_set (dict_set kvs ''devices'' (JObj (dict_set a ip (JObj r)))) ''devices''
               (JObj (dict_set (dict_set a ip (JObj r)) ip
                 (JObj (dict_set (dict_set r ''query_count'' (JInt c)) ''common_domains''
                    (first5_domains set_iter doms ip))))))\<rparr>, None)"
          by (rule set_activity_ok[OF h]) (simp_all add: map_of_dict_set)
        with sa show ?thesis by simp
      qed
    qed
  qed
qed

lemma update_device_frame:
  assumes "update_device clock set_iter doms ip c self = (self', r)"
  shows "device_map_file self' = device_map_file self"
    and "k \<noteq> ''devices'' \<Longrightarrow> py_getitem (data self') k = py_getitem (data self) k"
    and "ip' \<noteq> ip \<Longrightarrow> getitem_in (data self') ''devices'' ip' = getitem_in (data self) ''devices'' ip'"
proof -
  have "device_map_file self' = device_map_file self \<and>
     (k \<noteq> ''devices'' \<longrightarrow> py_getitem (data self') k = py_getitem (data self) k) \<and>
     (ip' \<noteq> ip \<longrightarrow> getitem_in (data self') ''devices'' ip' = getitem_in (data self) ''devices'' ip')"
  proof (cases r)
    case (Some e)
    with assms update_device_fails[of clock set_iter doms ip c self self' e] show ?thesis by simp
  next
    case None
    with assms have ok: "update_device clock set_iter doms ip c self = (self', None)" by simp
    show ?thesis
    proof (cases "py_getitem (data self) ''devices''")
      case (Inl e')
      with ok show ?thesis by (simp add: update_device_def)
    next
      case devs: (Inr devs)
      show ?thesis
      proof (cases "py_contains devs ip")
        case (Inl e')
        with devs ok show ?thesis by (simp add: update_device_def)
      next
        case (Inr registered)
        show ?thesis
        proof (cases registered)
          case True
          with devs Inr ok have "set_activity set_iter doms ip c self = (self', None)"
            by (simp add: update_device_def)
          from set_activity_frame[OF this] show ?thesis by simp
        next
          case False
          show ?thesis
          proof (cases "add_device (clock ip) ip (''Auto-detected-'' @ last_octet ip) ''Unknown'' ''Unknown''
                  (''Auto-detected from DNS logs with '' @ str_of_int c @ '' queries'') self")
            case (Inl e')
            with devs Inr False ok show ?thesis by (simp add: update_device_def)
          next
            case added: (Inr self1)
            with devs Inr False ok have sa: "set_activity set_iter doms ip c self1 = (self', None)"
              by (simp add: update_device_def)
            from added have 1: "device_map_file self1 = device_map_file self \<and>
               (k \<noteq> ''devices'' \<longrightarrow> py_getitem (data self1) k = py_getitem (data self) k) \<and>
               (ip' \<noteq> ip \<longrightarrow> getitem_in (data self1) ''devices'' ip' = getitem_in (data self) ''devices'' ip')"
              by (auto simp: add_device_Inr_iff map_of_dict_set getitem_in_JObj)
            from set_activity_frame[OF sa] 1 show ?thesis by simp
          qed
        qed
      qed
    qed
  qed
  then show "device_map_file self' = device_map_file self"
    and "k \<noteq> ''devices'' \<Longrightarrow> py_getitem (data self') k = py_getitem (data self) k"
    and "ip' \<noteq> ip \<Longrightarrow> getitem_in (data self') ''devices'' ip' = getitem_in (data self) ''devices'' ip'"
    by simp_all
qed

lemma getitem_in2_JObj:
  "getitem_in2 (JObj kvs) k1 k2 k3 =
     (case map_of kvs k1 of None \<Rightarrow> Inl KeyError | Some inner \<Rightarrow> getitem_in inner k2 k3)"
  by (simp add: getitem_in2_def split: option.splits)

lemma list_all_dict_set:
  "list_all P (map snd kvs) \<Longrightarrow> P v \<Longrightarrow> list_all P (map snd (dict_set kvs k v))"
  by (induction kvs) auto

lemma list_all_map_of:
  "list_all P (map snd kvs) \<Longrightarrow> map_of kvs k = Some v \<Longrightarrow> P v"
  by (induction kvs) (auto split: if_splits)

lemma records_are_dicts_iff:
  "records_are_dicts d \<longleftrightarrow>
     (\<exists>kvs a. d = JObj kvs \<and> map_of kvs ''devices'' = Some (JObj a) \<and> list_all is_dict (map snd a))"
proof (cases "py_getitem d ''devices''")
  case (Inl e)
  then show ?thesis
    by (cases d) (auto simp: records_are_dicts_def split: option.splits)
next
  case (Inr devs)
  then obtain kvs where "d = JObj kvs" "map_of kvs ''devices'' = Some devs"
    by (auto simp: py_getitem_Inr_iff)
  then show ?thesis
    by (cases devs) (auto simp: records_are_dicts_def)
qed

lemma is_dict_iff: "is_dict r \<longleftrightarrow> (\<exists>b. r = JObj b)"
  by (cases r) auto

text \<open>A successful turn has stored the count and the domains.\<close>

lemma update_device_done:
  assumes "update_device clock set_iter doms ip c self = (self', None)"
  shows "getitem_in2 (data self') ''devices'' ip ''query_count'' = Inr (JInt c)"
    and "getitem_in2 (data self') ''devices'' ip ''common_domains'' = Inr (first5_domains set_iter doms ip)"
proof -
  have "\<exists>self1. set_activity set_iter doms ip c self1 = (self', None)"
    using assms
    by (auto simp: update_device_def split: sum.splits bool.splits prod.splits option.splits)
  then obtain self1 where "set_activity set_iter doms ip c self1 = (self', None)" ..
  from set_activity_done[OF this] obtain kvs a b where
    "self' = self1\<lparr>data := JObj (dict_set kvs ''devices'' (JObj (dict_set a ip
             (JObj (dict_set (dict_set b ''query_count'' (JInt c)) ''common_domains''
                 (first5_domains set_iter doms ip))))))\<rparr>"
    by blast
  then show "getitem_in2 (data self') ''devices'' ip ''query_count'' = Inr (JInt c)"
    and "getitem_in2 (data self') ''devices'' ip ''common_domains'' = Inr (first5_domains set_iter doms ip)"
    by (simp_all add: getitem_in2_JObj getitem_in_JObj map_of_dict_set)
qed

text \<open>On a registry whose records are dictionaries a turn succeeds and keeps it so.\<close>

lemma update_device_ok:
  assumes "records_are_dicts (data self)"
  shows "\<exists>self'. update_device clock set_iter doms ip c self = (self', None) \<and>
           records_are_dicts (data self')"
proof -
  from assms obtain kvs a where h: "data self = JObj kvs" "map_of kvs ''devices'' = Some (JObj a)"
      "list_all is_dict (map snd a)"
    by (auto simp: records_are_dicts_iff)
  show ?thesis
  proof (cases "map_of a ip")
    case None
    then have notin: "ip \<notin> fst ` set a" by (simp add: map_of_eq_None_iff)
    let ?r = "[(''name'', JStr (''Auto-detected-'' @ last_octet ip)), (''type'', JStr ''Unknown''),
               (''category'', JStr ''Unknown''),
               (''description'', JStr (''Auto-detected from DNS logs with '' @ str_of_int c @ '' queries'')),
               (''added'', JStr (clock ip))]"
    let ?self1 = "self\<lparr>data := JObj (dict_set kvs ''devices'' (JObj (dict_set a ip (JObj ?r))))\<rparr>"
    have add: "add_device (clock ip) ip (''Auto-detected-'' @ last_octet ip) ''Unknown'' ''Unknown''
                  (''Auto-detected from DNS logs with '' @ str_of_int c @ '' queries'') self = Inr ?self1"
      using h by (simp add: add_device_Inr_iff)
    have sa: "set_activity set_iter doms ip c ?self1 =
       (?self1\<lparr>data := JObj (dict_set (dict_set kvs ''devices'' (JObj (dict_set a ip (JObj ?r)))) ''devices''
               (JObj (dict_set (dict_set a ip (JObj ?r)) ip
                 (JObj (dict_set (dict_set ?r ''query_count'' (JInt c)) ''common_domains''
                    (first5_domains set_iter doms ip))))))\<rparr>, None)"
      by (rule set_activity_ok) (simp_all add: map_of_dict_set)
    have "update_device clock set_iter doms ip c self =
       (?self1\<lparr>data := JObj (dict_set (dict_set kvs ''devices'' (JObj (dict_set a ip (JObj ?r)))) ''devices''
               (JObj (dict_set (dict_set a ip (JObj ?r)) ip
                 (JObj (dict_set (dict_set ?r ''query_count'' (JInt c)) ''common_domains''
                    (first5_domains set_iter doms ip))))))\<rparr>, None)"
      using h notin add sa by (simp add: update_device_def)
    moreover have "records_are_dicts (JObj (dict_set (dict_set kvs ''devices'' (JObj (dict_set a ip (JObj ?r)))) ''devices''
               (JObj (dict_set (dict_set a ip (JObj ?r)) ip
                 (JObj (dict_set (dict_set ?r ''query_count'' (JInt c)) ''common_domains''
                    (first5_domains set_iter doms ip)))))))"
      unfolding records_are_dicts_iff using h(3)
      by (auto simp: map_of_dict_set dict_set_twice intro: list_all_dict_set)
    ultimately show ?thesis by simp
  next
    case (Some r)
    then have "is_dict r" using h(3) by (rule list_all_map_of[rotated])
    then obtain b where b: "map_of a ip = Some (JObj b)" using Some by (auto simp: is_dict_iff)
    then have isin: "ip \<in> fst ` set a" by (metis map_of_eq_None_iff option.distinct(1))
    from set_activity_ok[OF h(1) h(2) b, of set_iter doms c]
    have "update_device clock set_iter doms ip c self =
      (self\<lparr>data := JObj (dict_set kvs ''devices'' (JObj (dict_set a ip
        (JObj (dict_set (dict_set b ''query_count'' (JInt c)) ''common_domains''
                 (first5_domains set_iter doms ip))))))\<rparr>, None)"
      using h isin by (simp add: update_device_def)
    moreover have "records_are_dicts (JObj (dict_set kvs ''devices'' (JObj (dict_set a ip
        (JObj (dict_set (dict_set b ''query_count'' (JInt c)) ''common_domains''
                 (first5_domains set_iter doms ip)))))))"
      unfolding records_are_dicts_iff using h(3)
      by (auto simp: map_of_dict_set intro: list_all_dict_set)
    ultimately show ?thesis by simp
  qed
qed

subsection \<open>The loop over the observed addresses\<close>

lemma update_devices_frame:
  assumes "update_devices clock set_iter doms act self = (self', r)"
      and "ip \<notin> fst ` set act"
  shows "device_map_file self' = device_map_file self \<and>
         (\<forall>k. k \<noteq> ''devices'' \<longrightarrow> py_getitem (data self') k = py_getitem (data self) k) \<and>
         getitem_in (data self') ''devices'' ip = getitem_in (data self) ''devices'' ip"
  using assms
proof (induction act arbitrary: self)
  case Nil
  then show ?case by simp
next
  case (Cons p act)
  obtain ip0 c0 where p: "p = (ip0, c0)" by (cases p)
  obtain self1 r1 where u: "update_device clock set_iter doms ip0 c0 self = (self1, r1)"
    by (cases "update_device clock set_iter doms ip0 c0 self")
  from Cons.prems(2) p have ne: "ip \<noteq> ip0" and notin: "ip \<notin> fst ` set act" by auto
  have step: "device_map_file self1 = device_map_file self \<and>
         (\<forall>k. k \<noteq> ''devices'' \<longrightarrow> py_getitem (data self1) k = py_getitem (data self) k) \<and>
         getitem_in (data self1) ''devices'' ip = getitem_in (data self) ''devices'' ip"
    using update_device_frame[OF u] ne by simp
  show ?case
  proof (cases r1)
    case (Some e)
    with Cons.prems(1) p u have "self' = self1" by simp
    with step show ?thesis by simp
  next
    case None
    with Cons.prems(1) p u have "update_devices clock set_iter doms act self1 = (self', r)" by simp
    from Cons.IH[OF this notin] step show ?thesis by simp
  qed
qed

lemma update_devices_ok:
  assumes "records_are_dicts (data self)"
  shows "\<exists>self'. update_devices clock set_iter doms act self = (self', None) \<and>
           records_are_dicts (data self')"
  using assms
proof (induction act arbitrary: self)
  case Nil
  then show ?case by simp
next
  case (Cons p act)
  obtain ip0 c0 where p: "p = (ip0, c0)" by (cases p)
  from update_device_ok[OF Cons.prems, of clock set_iter doms ip0 c0]
  obtain self1 where u: "update_device clock set_iter doms ip0 c0 self = (self1, None)"
      and r: "records_are_dicts (data self1)" by blast
  from Cons.IH[OF r] u p show ?case by simp
qed

lemma update_devices_done:
  assumes "update_devices clock set_iter doms act self = (self', None)"
      and "distinct (map fst act)" and "(ip, c) \<in> set act"
  shows "getitem_in2 (data self') ''devices'' ip ''query_count'' = Inr (JInt c) \<and>
         getitem_in2 (data self') ''devices'' ip ''common_domains'' = Inr (first5_domains set_iter doms ip)"
  using assms
proof (induction act arbitrary: self)
  case Nil
  then show ?case by simp
next
  case (Cons p act)
  obtain ip0 c0 where p: "p = (ip0, c0)" by (cases p)
  obtain self1 r1 where u: "update_device clock set_iter doms ip0 c0 self = (self1, r1)"
    by (cases "update_device clock set_iter doms ip0 c0 self")
  with Cons.prems(1) p have r1: "r1 = None"
    by (cases r1) auto
  with Cons.prems(1) p u have rest: "update_devices clock set_iter doms act self1 = (self', None)"
    by simp
  from Cons.prems(2) p have d: "distinct (map fst act)" and notin: "ip0 \<notin> fst ` set act" by auto
  show ?case
  proof (cases "(ip, c) = (ip0, c0)")
    case True
    from update_devices_frame[OF rest notin]
    have "getitem_in (data self') ''devices'' ip0 = getitem_in (data self1) ''devices'' ip0" by simp
    then have "getitem_in2 (data self') ''devices'' ip0 f = getitem_in2 (data self1) ''devices'' ip0 f" for f
      by (simp add: getitem_in2_via)
    with update_device_done[OF u[unfolded r1]] True show ?thesis by simp
  next
    case False
    with Cons.prems(3) p have "(ip, c) \<in> set act" by auto
    from Cons.IH[OF rest d this] show ?thesis .
  qed
qed

subsection \<open>The aggregation\<close>

lemma distinct_set_add: "distinct s \<Longrightarrow> distinct (set_add s x)"
  by (simp add: set_add_def)

lemma domains_of_dict_set:
  "domains_of (dict_set doms ip s) ip' = (if ip' = ip then s else domains_of doms ip')"
  by (simp add: domains_of_def dict_get_dict_set)

lemma scan_line_keeps:
  assumes "scan_line line acc = Inr acc'"
      and "distinct (map fst (fst acc))" and "\<forall>ip. distinct (domains_of (snd acc) ip)"
  shows "distinct (map fst (fst acc')) \<and> (\<forall>ip. distinct (domains_of (snd acc') ip))"
proof (cases line)
  case NotJson
  with assms show ?thesis by (simp add: scan_line_def)
next
  case (Json log_entry)
  show ?thesis
  proof (cases "find_query log_entry")
    case (Inl e)
    with Json assms show ?thesis by (simp add: scan_line_def)
  next
    case (Inr found)
    show ?thesis
    proof (cases found)
      case None
      with Json Inr assms show ?thesis by (simp add: scan_line_def)
    next
      case (Some m)
      obtain ip resolver qtype dname where m: "m = (ip, resolver, qtype, dname)"
        by (cases m) auto
      with Json Inr Some assms(1)
      have "acc' = (count_up (fst acc) ip,
                    dict_set (snd acc) ip (set_add (domains_of (snd acc) ip) dname))"
        by (simp add: scan_line_def)
      with assms(2,3) show ?thesis
        by (simp add: count_up_def distinct_dict_set domains_of_dict_set distinct_set_add)
    qed
  qed
qed

lemma scan_lines_keeps:
  assumes "scan_lines lines acc = Inr acc'"
      and "distinct (map fst (fst acc))" and "\<forall>ip. distinct (domains_of (snd acc) ip)"
  shows "distinct (map fst (fst acc')) \<and> (\<forall>ip. distinct (domains_of (snd acc') ip))"
  using assms
proof (induction lines arbitrary: acc)
  case Nil
  then show ?case by simp
next
  case (Cons line lines)
  from Cons.prems(1) obtain acc1 where 1: "scan_line line acc = Inr acc1"
      and 2: "scan_lines lines acc1 = Inr acc'"
    by (auto split: sum.splits)
  from scan_line_keeps[OF 1 Cons.prems(2,3)] Cons.IH[OF 2] show ?case by blast
qed

lemma scan_lines_result:
  assumes "scan_lines lines ([], []) = Inr (act, doms)"
  shows "distinct (map fst act)" and "distinct (domains_of doms ip)"
  using scan_lines_keeps[OF assms] by (simp_all add: domains_of_def dict_get_def)

lemma set_iter_ok_take5:
  assumes "set_iter_ok set_iter" and "distinct s"
  shows "length (take 5 (set_iter s)) = min 5 (length s)"
    and "distinct (take 5 (set_iter s))"
    and "set (take 5 (set_iter s)) \<subseteq> set s"
proof -
  from assms have d: "distinct (set_iter s)" and e: "set (set_iter s) = set s"
    by (simp_all add: set_iter_ok_def)
  from d e assms(2) have "length (set_iter s) = length s"
    by (metis distinct_card)
  then show "length (take 5 (set_iter s)) = min 5 (length s)" by simp
  from d show "distinct (take 5 (set_iter s))" by simp
  from e show "set (take 5 (set_iter s)) \<subseteq> set s" by (metis set_take_subset)
qed

lemma set_iter_ok_rev: "set_iter_ok rev"
  by (simp add: set_iter_ok_def)

lemma update_devices_append:
  "update_devices clock set_iter doms (xs @ ys) self =
     (case update_devices clock set_iter doms xs self of
        (self1, Some e) \<Rightarrow> (self1, Some e)
      | (self1, None) \<Rightarrow> update_devices clock set_iter doms ys self1)"
  by (induction xs arbitrary: self) (auto split: prod.splits option.splits)

subsection \<open>The routing table loop\<close>

lemma map_insort_key: "map f (insort_key f x xs) = insort (f x) (map f xs)"
  by (induction xs) auto

lemma map_sort_key: "map f (sort_key f xs) = sort (map f xs)"
  by (induction xs) (auto simp: map_insort_key)

lemma routing_entry_ok:
  assumes "dict_get flds ''common_domains'' (JList []) = JList ds"
  shows "routing_entry ip (JObj flds) =
     Inr (JObj [
       (''ip'', JStr ip),
       (''name'', dict_get flds ''name'' (JStr ''Unknown'')),
       (''type'', dict_get flds ''type'' (JStr ''Unknown'')),
       (''category'', dict_get flds ''category'' (JStr ''Unknown'')),
       (''activity'', dict_get flds ''query_count'' (JInt 0)),
       (''top_domains'', JList (take 3 ds)),
       (''last_seen'', dict_get flds ''added'' (JStr ''Unknown''))])"
  using assms by (simp add: routing_entry_def)

lemma is_device_record_iff:
  "is_device_record r \<longleftrightarrow>
     (\<exists>flds ds. r = JObj flds \<and> dict_get flds ''common_domains'' (JList []) = JList ds)"
  by (auto simp: is_device_record_def split: json.splits)

lemma table_loop_ok:
  assumes "list_all is_device_record (map snd items)"
  shows "\<exists>entries. table_loop items table = Inr (table @ entries) \<and>
     list_all2 (\<lambda>item entry. \<exists>ip flds ds. item = (ip, JObj flds) \<and>
        dict_get flds ''common_domains'' (JList []) = JList ds \<and>
        entry = JObj [
          (''ip'', JStr ip),
          (''name'', dict_get flds ''name'' (JStr ''Unknown'')),
          (''type'', dict_get flds ''type'' (JStr ''Unknown'')),
          (''category'', dict_get flds ''category'' (JStr ''Unknown'')),
          (''activity'', dict_get flds ''query_count'' (JInt 0)),
          (''top_domains'', JList (take 3 ds)),
          (''last_seen'', dict_get flds ''added'' (JStr ''Unknown''))]) items entries"
  using assms
proof (induction items arbitrary: table)
  case Nil
  then show ?case by simp
next
  case (Cons item items)
  obtain ip info where item: "item = (ip, info)" by (cases item)
  with Cons.prems obtain flds ds where info: "info = JObj flds"
      "dict_get flds ''common_domains'' (JList []) = JList ds"
    by (auto simp: is_device_record_iff)
  let ?e = "JObj [
          (''ip'', JStr ip),
          (''name'', dict_get flds ''name'' (JStr ''Unknown'')),
          (''type'', dict_get flds ''type'' (JStr ''Unknown'')),
          (''category'', dict_get flds ''category'' (JStr ''Unknown'')),
          (''activity'', dict_get flds ''query_count'' (JInt 0)),
          (''top_domains'', JList (take 3 ds)),
          (''last_seen'', dict_get flds ''added'' (JStr ''Unknown''))]"
  from Cons.prems have "list_all is_device_record (map snd items)" by simp
  from Cons.IH[OF this, of "table @ [?e]"] obtain entries where
    1: "table_loop items (table @ [?e]) = Inr ((table @ [?e]) @ entries)" and
    2: "list_all2 (\<lambda>item entry. \<exists>ip flds ds. item = (ip, JObj flds) \<and>
        dict_get flds ''common_domains'' (JList []) = JList ds \<and>
        entry = JObj [
          (''ip'', JStr ip),
          (''name'', dict_get flds ''name'' (JStr ''Unknown'')),
          (''type'', dict_get flds ''type'' (JStr ''Unknown'')),
          (''category'', dict_get flds ''category'' (JStr ''Unknown'')),
          (''activity'', dict_get flds ''query_count'' (JInt 0)),
          (''top_domains'', JList (take 3 ds)),
          (''last_seen'', dict_get flds ''added'' (JStr ''Unknown''))]) items entries"
    by blast
  have "table_loop (item # items) table = Inr (table @ ?e # entries)"
    using item info 1 by (simp add: routing_entry_ok)
  moreover have "list_all2 (\<lambda>item entry. \<exists>ip flds ds. item = (ip, JObj flds) \<and>
        dict_get flds ''common_domains'' (JList []) = JList ds \<and>
        entry = JObj [
          (''ip'', JStr ip),
          (''name'', dict_get flds ''name'' (JStr ''Unknown'')),
          (''type'', dict_get flds ''type'' (JStr ''Unknown'')),
          (''category'', dict_get flds ''category'' (JStr ''Unknown'')),
          (''activity'', dict_get flds ''query_count'' (JInt 0)),
          (''top_domains'', JList (take 3 ds)),
          (''last_seen'', dict_get flds ''added'' (JStr ''Unknown''))]) (item # items) (?e # entries)"
    using item info 2 by simp
  ultimately show ?case by blast
qed

lemma list_all_sort_key:
  "list_all P (map snd (sort_key fst xs)) = list_all P (map snd xs)"
  by (simp add: list_all_iff)

lemma string_order_is_not_numeric: "''192.168.1.10'' < ''192.168.1.9''"
  by simp

subsection \<open>Evaluating the examples\<close>

lemmas eval_defs = update_device_def add_device_def set_activity_def setitem_in_def setitem_in2_def
  create_empty_map_def last_octet_def str_of_int_def getitem_in_def getitem_in2_def dict_get_def
  first5_domains_def domains_of_def

lemmas scan_defs = scan_line_def find_query_def query_line_def match_query_def many1_def lit_def
  is_digit_def is_word_def count_up_def domains_of_def set_add_def dict_get_def

lemma analyze_dns_log_scanned:
  assumes "scan_lines lines ([], []) = Inr (device_activity, device_domains)"
  shows "analyze_dns_log clock set_iter (Some lines) self =
     (case update_devices clock set_iter device_domains device_activity self of
        (self', Some e) \<Rightarrow> (self', False)
      | (self', None) \<Rightarrow> (self', True))"
  using assms by (simp add: analyze_dns_log_def)

lemma empty_mapper_records: "records_are_dicts (data empty_mapper)"
  by (simp add: records_are_dicts_def empty_mapper_def create_empty_map_def)

lemma registry_mapper_records: "records_are_dicts (data registry_mapper)"
  by (simp add: records_are_dicts_def registry_mapper_eq registry_doc_def)

subsection \<open>Saving and loading the registry\<close>

text \<open>
  Claim C1.  For a mapper whose data is a DeviceMap (a dictionary with a metadata dictionary
  and a device dictionary), \<^verbatim>\<open>save_device_map\<close> with a write that completes
  returns \<^verbatim>\<open>True\<close>, and \<^verbatim>\<open>_load_device_map\<close> on the same file then
  yields the mapper's data: the device dictionary is the one held before the save, with
  the same keys and the same records; every top-level entry but the metadata is unchanged;
  in the metadata only \<^verbatim>\<open>last_updated\<close> (the date of the save) and
  \<^verbatim>\<open>total_devices\<close> (the number of devices) are recomputed.
\<close>

theorem save_then_load_roundtrip:
  assumes "py_getitem (data self) ''metadata'' = Inr (JObj meta)"
      and "py_getitem (data self) ''devices'' = Inr (JObj devs)"
  shows "\<exists>fs' self'.
           save_device_map today WriteOk fs self = Inr (fs', self', True) \<and>
           load_device_map today' fs' (device_map_file self) = data self' \<and>
           py_getitem (data self') ''devices'' = Inr (JObj devs) \<and>
           (\<forall>k. k \<noteq> ''metadata'' \<longrightarrow> py_getitem (data self') k = py_getitem (data self) k) \<and>
           getitem_in (data self') ''metadata'' ''last_updated'' = Inr (JStr today) \<and>
           getitem_in (data self') ''metadata'' ''total_devices'' = Inr (JInt (int (length devs))) \<and>
           (\<forall>f. f \<noteq> ''last_updated'' \<and> f \<noteq> ''total_devices'' \<longrightarrow>
                getitem_in (data self') ''metadata'' f = getitem_in (data self) ''metadata'' f)"
proof -
  from assms obtain kvs where kvs: "data self = JObj kvs"
      "map_of kvs ''metadata'' = Some (JObj meta)" "map_of kvs ''devices'' = Some (JObj devs)"
    by (auto simp: py_getitem_Inr_iff)
  define meta1 where "meta1 = dict_set meta ''last_updated'' (JStr today)"
  define d1 where "d1 = JObj (dict_set kvs ''metadata'' (JObj meta1))"
  define meta2 where "meta2 = dict_set meta1 ''total_devices'' (JInt (int (length devs)))"
  define d2 where "d2 = JObj (dict_set kvs ''metadata'' (JObj meta2))"
  have s1: "setitem_in (data self) ''metadata'' ''last_updated'' (JStr today) = Inr d1"
    using kvs by (simp add: setitem_in_Inr_iff d1_def meta1_def)
  have g1: "py_getitem d1 ''devices'' = Inr (JObj devs)"
    using kvs by (simp add: d1_def map_of_dict_set)
  have s2: "setitem_in d1 ''metadata'' ''total_devices'' (JInt (int (length devs))) = Inr d2"
    by (simp add: setitem_in_Inr_iff d1_def d2_def meta2_def map_of_dict_set dict_set_twice)
  have save: "save_device_map today WriteOk fs self =
      Inr (fs(device_map_file self := Doc d2), self\<lparr>data := d2\<rparr>, True)"
    by (simp add: save_device_map_def s1 g1 s2)
  have load: "load_device_map today' (fs(device_map_file self := Doc d2)) (device_map_file self) = d2"
    by (simp add: load_device_map_def)
  have devs: "py_getitem d2 ''devices'' = Inr (JObj devs)"
    using kvs by (simp add: d2_def map_of_dict_set)
  have other: "\<forall>k. k \<noteq> ''metadata'' \<longrightarrow> py_getitem d2 k = py_getitem (data self) k"
    using kvs by (simp add: d2_def map_of_dict_set)
  have lu: "getitem_in d2 ''metadata'' ''last_updated'' = Inr (JStr today)"
    by (simp add: getitem_in_def d2_def meta2_def meta1_def map_of_dict_set)
  have td: "getitem_in d2 ''metadata'' ''total_devices'' = Inr (JInt (int (length devs)))"
    by (simp add: getitem_in_def d2_def meta2_def meta1_def map_of_dict_set)
  have rest: "\<forall>f. f \<noteq> ''last_updated'' \<and> f \<noteq> ''total_devices'' \<longrightarrow>
                getitem_in d2 ''metadata'' f = getitem_in (data self) ''metadata'' f"
    using kvs by (simp add: getitem_in_def d2_def meta2_def meta1_def map_of_dict_set)
  show ?thesis
    using save load devs other lu td rest by simp
qed

theorem save_then_load_roundtrip_witness:
  "py_getitem (data registry_mapper) ''metadata'' =
      Inr (JObj [(''last_updated'', JStr ''2025-01-01''), (''network_range'', JStr ''192.168.1.0/24''),
                 (''total_devices'', JInt 1), (''source'', JStr ''Control D DNS log analysis'')]) \<and>
   py_getitem (data registry_mapper) ''devices'' =
      Inr (JObj [(''10.0.0.5'', JObj [
             (''name'', JStr ''Auto-detected-5''),
             (''type'', JStr ''Unknown''),
             (''category'', JStr ''Unknown''),
             (''description'', JStr ''Auto-detected from DNS logs with 7 queries''),
             (''added'', JStr ''2025-01-01 10:00:00''),
             (''query_count'', JInt 7),
             (''common_domains'', JList [JStr ''x.com''])])]) \<and>
   (\<exists>fs' self'.
      save_device_map ''2025-02-01'' WriteOk registry_fs registry_mapper = Inr (fs', self', True) \<and>
      load_device_map ''2025-02-02'' fs' ''device-map.json'' = data self' \<and>
      py_getitem (data self') ''devices'' = py_getitem registry_doc ''devices'' \<and>
      getitem_in (data self') ''metadata'' ''total_devices'' = Inr (JInt 1))"
proof -
  have m: "py_getitem (data registry_mapper) ''metadata'' =
      Inr (JObj [(''last_updated'', JStr ''2025-01-01''), (''network_range'', JStr ''192.168.1.0/24''),
                 (''total_devices'', JInt 1), (''source'', JStr ''Control D DNS log analysis'')])"
    by (simp add: registry_mapper_eq registry_doc_def)
  have d: "py_getitem (data registry_mapper) ''devices'' =
      Inr (JObj [(''10.0.0.5'', JObj [
             (''name'', JStr ''Auto-detected-5''),
             (''type'', JStr ''Unknown''),
             (''category'', JStr ''Unknown''),
             (''description'', JStr ''Auto-detected from DNS logs with 7 queries''),
             (''added'', JStr ''2025-01-01 10:00:00''),
             (''query_count'', JInt 7),
             (''common_domains'', JList [JStr ''x.com''])])])"
    by (simp add: registry_mapper_eq registry_doc_def)
  have f: "device_map_file registry_mapper = ''device-map.json''"
    by (simp add: registry_mapper_eq)
  have r: "py_getitem registry_doc ''devices'' = py_getitem (data registry_mapper) ''devices''"
    by (simp add: registry_mapper_eq)
  from save_then_load_roundtrip[OF m d, of "''2025-02-01''" registry_fs "''2025-02-02''"]
  show ?thesis
    unfolding f r d using m d by auto
qed

text \<open>
  Claim C2, as the code has it.  \<^verbatim>\<open>save_device_map\<close> writes into the backing file
  itself and into no other file.  With a DeviceMap as data: a write that completes leaves
  the new document in the file and returns \<^verbatim>\<open>True\<close>; when \<^verbatim>\<open>open\<close> fails
  the file system is as before and the result is \<^verbatim>\<open>False\<close>; when the writing stops
  after the file was opened, the file no longer decodes (what was persisted before is lost)
  and the result is \<^verbatim>\<open>False\<close>.
\<close>

theorem save_writes_in_place:
  assumes "py_getitem (data self) ''metadata'' = Inr (JObj meta)"
      and "py_getitem (data self) ''devices'' = Inr (JObj devs)"
  shows "\<exists>d'.
           save_device_map today WriteOk fs self =
             Inr (fs(device_map_file self := Doc d'), self\<lparr>data := d'\<rparr>, True) \<and>
           save_device_map today OpenFails fs self = Inr (fs, self\<lparr>data := d'\<rparr>, False) \<and>
           save_device_map today WriteFails fs self =
             Inr (fs(device_map_file self := Corrupt), self\<lparr>data := d'\<rparr>, False)"
proof -
  from assms obtain kvs where kvs: "data self = JObj kvs"
      "map_of kvs ''metadata'' = Some (JObj meta)" "map_of kvs ''devices'' = Some (JObj devs)"
    by (auto simp: py_getitem_Inr_iff)
  define d1 where "d1 = JObj (dict_set kvs ''metadata'' (JObj (dict_set meta ''last_updated'' (JStr today))))"
  have s1: "setitem_in (data self) ''metadata'' ''last_updated'' (JStr today) = Inr d1"
    using kvs by (simp add: setitem_in_Inr_iff d1_def)
  have g1: "py_getitem d1 ''devices'' = Inr (JObj devs)"
    using kvs by (simp add: d1_def map_of_dict_set)
  obtain d2 where s2: "setitem_in d1 ''metadata'' ''total_devices'' (JInt (int (length devs))) = Inr d2"
    by (simp add: setitem_in_Inr_iff d1_def map_of_dict_set)
  show ?thesis
    by (rule exI[of _ d2]) (simp add: save_device_map_def s1 g1 s2)
qed

theorem save_writes_in_place_witness:
  "py_getitem (data registry_mapper) ''metadata'' =
      Inr (JObj [(''last_updated'', JStr ''2025-01-01''), (''network_range'', JStr ''192.168.1.0/24''),
                 (''total_devices'', JInt 1), (''source'', JStr ''Control D DNS log analysis'')]) \<and>
   py_getitem (data registry_mapper) ''devices'' = py_getitem registry_doc ''devices'' \<and>
   (\<exists>d'. save_device_map ''2025-02-01'' WriteOk registry_fs registry_mapper =
             Inr (registry_fs(''device-map.json'' := Doc d'), registry_mapper\<lparr>data := d'\<rparr>, True) \<and>
          save_device_map ''2025-02-01'' OpenFails registry_fs registry_mapper =
             Inr (registry_fs, registry_mapper\<lparr>data := d'\<rparr>, False) \<and>
          save_device_map ''2025-02-01'' WriteFails registry_fs registry_mapper =
             Inr (registry_fs(''device-map.json'' := Corrupt), registry_mapper\<lparr>data := d'\<rparr>, False))"
proof -
  have m: "py_getitem (data registry_mapper) ''metadata'' =
      Inr (JObj [(''last_updated'', JStr ''2025-01-01''), (''network_range'', JStr ''192.168.1.0/24''),
                 (''total_devices'', JInt 1), (''source'', JStr ''Control D DNS log analysis'')])"
    by (simp add: registry_mapper_eq registry_doc_def)
  have d: "py_getitem (data registry_mapper) ''devices'' =
      Inr (JObj [(''10.0.0.5'', JObj [
             (''name'', JStr ''Auto-detected-5''),
             (''type'', JStr ''Unknown''),
             (''category'', JStr ''Unknown''),
             (''description'', JStr ''Auto-detected from DNS logs with 7 queries''),
             (''added'', JStr ''2025-01-01 10:00:00''),
             (''query_count'', JInt 7),
             (''common_domains'', JList [JStr ''x.com''])])])"
    by (simp add: registry_mapper_eq registry_doc_def)
  have f: "device_map_file registry_mapper = ''device-map.json''"
    by (simp add: registry_mapper_eq)
  have r: "py_getitem (data registry_mapper) ''devices'' = py_getitem registry_doc ''devices''"
    by (simp add: registry_mapper_eq)
  from save_writes_in_place[OF m d, of "''2025-02-01''" registry_fs]
  show ?thesis
    unfolding f using m r by blast
qed

text \<open>
  The claim as the specification states it fails: the registry file holds one device, the
  writing stops after the file was opened, and the file is left undecodable; the next load
  falls back to an empty DeviceMap.
\<close>

theorem save_not_atomic_counterexample:
  "registry_fs ''device-map.json'' = Doc registry_doc \<and>
   save_device_map ''2025-02-01'' WriteFails registry_fs registry_mapper =
     Inr (registry_fs(''device-map.json'' := Corrupt),
          registry_mapper\<lparr>data := JObj [
            (''metadata'', JObj [
               (''last_updated'', JStr ''2025-02-01''),
               (''network_range'', JStr ''192.168.1.0/24''),
               (''total_devices'', JInt 1),
               (''source'', JStr ''Control D DNS log analysis'')]),
            (''devices'', JObj [
               (''10.0.0.5'', JObj [
                  (''name'', JStr ''Auto-detected-5''),
                  (''type'', JStr ''Unknown''),
                  (''category'', JStr ''Unknown''),
                  (''description'', JStr ''Auto-detected from DNS logs with 7 queries''),
                  (''added'', JStr ''2025-01-01 10:00:00''),
                  (''query_count'', JInt 7),
                  (''common_domains'', JList [JStr ''x.com''])])]),
            (''network_insights'', JObj [
               (''device_types'', JObj []),
               (''top_services'', JObj []),
               (''activity_patterns'', JObj [])])]\<rparr>,
          False) \<and>
   (registry_fs(''device-map.json'' := Corrupt)) ''device-map.json'' = Corrupt \<and>
   py_getitem (load_device_map ''2025-02-02'' (registry_fs(''device-map.json'' := Corrupt)) ''device-map.json'')
       ''devices'' = Inr (JObj [])"
  by (simp add: registry_fs_def registry_mapper_eq registry_doc_def save_device_map_def
      setitem_in_def load_device_map_def create_empty_map_def)

subsection \<open>Adding a device\<close>

text \<open>
  Claim C7, as the code has it.  \<^verbatim>\<open>add_device\<close> stores under the address a new
  record of exactly five entries (name, type, category, description, and \<^verbatim>\<open>added\<close>
  set to the time of the call), whether or not the address was registered; the records
  of the other addresses and the other top-level entries are unchanged.
\<close>

theorem add_device_replaces_record:
  assumes "py_getitem (data self) ''devices'' = Inr (JObj devs)"
  shows "\<exists>d'. add_device now ip name device_type category description self = Inr (self\<lparr>data := d'\<rparr>) \<and>
     getitem_in d' ''devices'' ip =
       Inr (JObj [(''name'', JStr name), (''type'', JStr device_type), (''category'', JStr category),
                  (''description'', JStr description), (''added'', JStr now)]) \<and>
     (\<forall>ip'. ip' \<noteq> ip \<longrightarrow> getitem_in d' ''devices'' ip' = getitem_in (data self) ''devices'' ip') \<and>
     (\<forall>k. k \<noteq> ''devices'' \<longrightarrow> py_getitem d' k = py_getitem (data self) k)"
proof -
  let ?r = "JObj [(''name'', JStr name), (''type'', JStr device_type), (''category'', JStr category),
                  (''description'', JStr description), (''added'', JStr now)]"
  from assms obtain kvs where kvs: "data self = JObj kvs" "map_of kvs ''devices'' = Some (JObj devs)"
    by (auto simp: py_getitem_Inr_iff)
  define d' where "d' = JObj (dict_set kvs ''devices'' (JObj (dict_set devs ip ?r)))"
  have "setitem_in (data self) ''devices'' ip ?r = Inr d'"
    using kvs by (simp add: setitem_in_Inr_iff d'_def)
  then have "add_device now ip name device_type category description self = Inr (self\<lparr>data := d'\<rparr>)"
    by (simp add: add_device_def)
  moreover have "getitem_in d' ''devices'' ip = Inr ?r"
    by (simp add: getitem_in_def d'_def map_of_dict_set)
  moreover have "\<forall>ip'. ip' \<noteq> ip \<longrightarrow> getitem_in d' ''devices'' ip' = getitem_in (data self) ''devices'' ip'"
    using kvs by (simp add: getitem_in_def d'_def map_of_dict_set)
  moreover have "\<forall>k. k \<noteq> ''devices'' \<longrightarrow> py_getitem d' k = py_getitem (data self) k"
    using kvs by (simp add: d'_def map_of_dict_set)
  ultimately show ?thesis by blast
qed

theorem add_device_replaces_record_witness:
  "py_getitem (data registry_mapper) ''devices'' = py_getitem registry_doc ''devices'' \<and>
   (\<exists>d'. add_device ''2025-03-03 09:30:00'' ''10.0.0.5'' ''Printer'' ''Peripheral'' ''Office''
             ''Laser printer'' registry_mapper = Inr (registry_mapper\<lparr>data := d'\<rparr>) \<and>
          getitem_in d' ''devices'' ''10.0.0.5'' =
            Inr (JObj [(''name'', JStr ''Printer''), (''type'', JStr ''Peripheral''),
                       (''category'', JStr ''Office''), (''description'', JStr ''Laser printer''),
                       (''added'', JStr ''2025-03-03 09:30:00'')]))"
proof -
  have d: "py_getitem (data registry_mapper) ''devices'' =
      Inr (JObj [(''10.0.0.5'', JObj [
             (''name'', JStr ''Auto-detected-5''),
             (''type'', JStr ''Unknown''),
             (''category'', JStr ''Unknown''),
             (''description'', JStr ''Auto-detected from DNS logs with 7 queries''),
             (''added'', JStr ''2025-01-01 10:00:00''),
             (''query_count'', JInt 7),
             (''common_domains'', JList [JStr ''x.com''])])])"
    by (simp add: registry_mapper_eq registry_doc_def)
  have r: "py_getitem (data registry_mapper) ''devices'' = py_getitem registry_doc ''devices''"
    by (simp add: registry_mapper_eq)
  from add_device_replaces_record[OF d, of "''2025-03-03 09:30:00''" "''10.0.0.5''" "''Printer''"
      "''Peripheral''" "''Office''" "''Laser printer''"]
  show ?thesis
    using r by blast
qed

text \<open>
  The claim as the specification states it fails: the address 10.0.0.5 is registered with
  \<^verbatim>\<open>added\<close> 2025-01-01 10:00:00; adding it again on 2025-03-03 stamps the record
  anew, and its query count and domains are gone.
\<close>

theorem add_device_restamps_counterexample:
  "getitem_in2 (data registry_mapper) ''devices'' ''10.0.0.5'' ''added'' =
     Inr (JStr ''2025-01-01 10:00:00'') \<and>
   add_device ''2025-03-03 09:30:00'' ''10.0.0.5'' ''Printer'' ''Peripheral'' ''Office''
       ''Laser printer'' registry_mapper =
     Inr \<lparr>device_map_file = ''device-map.json'',
          data = JObj [
            (''metadata'', JObj [
               (''last_updated'', JStr ''2025-01-01''),
               (''network_range'', JStr ''192.168.1.0/24''),
               (''total_devices'', JInt 1),
               (''source'', JStr ''Control D DNS log analysis'')]),
            (''devices'', JObj [
               (''10.0.0.5'', JObj [
                  (''name'', JStr ''Printer''),
                  (''type'', JStr ''Peripheral''),
                  (''category'', JStr ''Office''),
                  (''description'', JStr ''Laser printer''),
                  (''added'', JStr ''2025-03-03 09:30:00'')])]),
            (''network_insights'', JObj [
               (''device_types'', JObj []),
               (''top_services'', JObj []),
               (''activity_patterns'', JObj [])])]\<rparr>"
  by (simp add: registry_mapper_eq registry_doc_def add_device_def setitem_in_def
      getitem_in2_def getitem_in_def)

subsection \<open>Lines that carry no query\<close>

text \<open>
  What holds of claim C3: a line that does not decode, and a line that decodes to a
  dictionary without a \<^verbatim>\<open>message\<close> entry, yield no event and leave the
  analyzer and the aggregation as they were; the loops go on to the next line.
\<close>

lemma find_query_without_message:
  "map_of kvs ''message'' = None \<Longrightarrow> find_query (JObj kvs) = Inr None"
  by (simp add: find_query_def dict_get_def)

lemma parse_log_line_drops:
  assumes "line = NotJson \<or> (\<exists>kvs. line = Json (JObj kvs) \<and> map_of kvs ''message'' = None)"
  shows "parse_log_line line self = Inr (None, self)" and "scan_line line acc = Inr acc"
  using assms by (auto simp: parse_log_line_def scan_line_def find_query_without_message)

lemma loops_skip_dropped_lines:
  assumes "\<forall>line\<in>set dropped. line = NotJson \<or> (\<exists>kvs. line = Json (JObj kvs) \<and> map_of kvs ''message'' = None)"
  shows "parse_lines (dropped @ rest) self = parse_lines rest self"
    and "scan_lines (dropped @ rest) acc = scan_lines rest acc"
  using assms by (induction dropped) (simp_all add: parse_log_line_drops)

text \<open>
  Claim C3 fails on a line that is valid JSON but not a dictionary, such as the line
  \<^verbatim>\<open>123\<close>: the decoded value has no \<^verbatim>\<open>get\<close> method, the
  \<^verbatim>\<open>AttributeError\<close> is not a \<^verbatim>\<open>JSONDecodeError\<close> and escapes
  \<^verbatim>\<open>parse_log_line\<close> and \<^verbatim>\<open>analyze_log_file\<close>; in
  \<^verbatim>\<open>analyze_dns_log\<close> the outer handler catches it, the run returns
  \<^verbatim>\<open>False\<close>, and the query line after it is never read.
\<close>

theorem non_dictionary_line_escapes:
  "parse_log_line (Json (JInt 123)) self = Inl AttributeError \<and>
   analyze_log_file (Some [Json (JInt 123), query_line ''192.168.1.10'' ''x.com'']) self =
     Inl AttributeError \<and>
   analyze_dns_log clock set_iter (Some [Json (JInt 123), query_line ''192.168.1.10'' ''x.com'']) m =
     (m, False)"
  by (simp add: parse_log_line_def analyze_log_file_def analyze_dns_log_def scan_line_def
      find_query_def)

subsection \<open>Reconciliation\<close>

text \<open>
  Claim C4.  Reconciling the aggregation that holds the one address 10.0.0.5 with 7
  queries against an empty registry leaves exactly one device, keyed 10.0.0.5, named
  Auto-detected-5, of type and category Unknown, with a description that cites the 7
  queries and a query count of 7.
\<close>

theorem reconcile_unseen_ip_on_empty_registry:
  "update_devices clock set_iter device_domains [(''10.0.0.5'', 7)]
      \<lparr>device_map_file = path, data = create_empty_map today\<rparr> =
   (\<lparr>device_map_file = path,
     data = JObj [
       (''metadata'', JObj [
          (''last_updated'', JStr today),
          (''network_range'', JStr ''192.168.1.0/24''),
          (''total_devices'', JInt 0),
          (''source'', JStr ''Control D DNS log analysis'')]),
       (''devices'', JObj [
          (''10.0.0.5'', JObj [
             (''name'', JStr ''Auto-detected-5''),
             (''type'', JStr ''Unknown''),
             (''category'', JStr ''Unknown''),
             (''description'', JStr ''Auto-detected from DNS logs with 7 queries''),
             (''added'', JStr (clock ''10.0.0.5'')),
             (''query_count'', JInt 7),
             (''common_domains'', first5_domains set_iter device_domains ''10.0.0.5'')])]),
       (''network_insights'', JObj [
          (''device_types'', JObj []),
          (''top_services'', JObj []),
          (''activity_patterns'', JObj [])])]\<rparr>,
    None)"
  by (simp add: eval_defs)

text \<open>
  Claim C5.  On a registry whose records are dictionaries the reconciliation runs to its
  end, and every observed address then has the observed count as its query count, whatever
  the count was before; reconciling the same aggregation once more leaves it at that count.
\<close>

theorem reconcile_overwrites_query_count:
  assumes "records_are_dicts (data self)"
      and "distinct (map fst device_activity)"
      and "(ip, c) \<in> set device_activity"
  shows "\<exists>self1 self2.
           update_devices clock set_iter device_domains device_activity self = (self1, None) \<and>
           getitem_in2 (data self1) ''devices'' ip ''query_count'' = Inr (JInt c) \<and>
           update_devices clock' set_iter' device_domains device_activity self1 = (self2, None) \<and>
           getitem_in2 (data self2) ''devices'' ip ''query_count'' = Inr (JInt c)"
proof -
  from update_devices_ok[OF assms(1)] obtain self1 where
    1: "update_devices clock set_iter device_domains device_activity self = (self1, None)"
    and r1: "records_are_dicts (data self1)" by blast
  from update_devices_ok[OF r1] obtain self2 where
    2: "update_devices clock' set_iter' device_domains device_activity self1 = (self2, None)"
    by blast
  from update_devices_done[OF 1 assms(2,3)] update_devices_done[OF 2 assms(2,3)] 1 2
  show ?thesis by blast
qed

theorem reconcile_overwrites_query_count_witness:
  "records_are_dicts (data registry_mapper) \<and>
   distinct (map fst [(''10.0.0.5'', 7::int)]) \<and>
   (''10.0.0.5'', 7) \<in> set [(''10.0.0.5'', 7::int)] \<and>
   getitem_in2 (data registry_mapper) ''devices'' ''10.0.0.5'' ''query_count'' = Inr (JInt 7) \<and>
   (\<exists>self1 self2.
      update_devices fixed_clock rev [(''10.0.0.5'', [''x.com''])] [(''10.0.0.5'', 7)] registry_mapper =
        (self1, None) \<and>
      getitem_in2 (data self1) ''devices'' ''10.0.0.5'' ''query_count'' = Inr (JInt 7) \<and>
      update_devices fixed_clock rev [(''10.0.0.5'', [''x.com''])] [(''10.0.0.5'', 7)] self1 =
        (self2, None) \<and>
      getitem_in2 (data self2) ''devices'' ''10.0.0.5'' ''query_count'' = Inr (JInt 7))"
proof -
  have d: "distinct (map fst [(''10.0.0.5'', 7::int)])" by simp
  have m: "(''10.0.0.5'', 7) \<in> set [(''10.0.0.5'', 7::int)]" by simp
  have q: "getitem_in2 (data registry_mapper) ''devices'' ''10.0.0.5'' ''query_count'' = Inr (JInt 7)"
    by (simp add: registry_mapper_eq registry_doc_def getitem_in2_def getitem_in_def)
  from reconcile_overwrites_query_count[OF registry_mapper_records d m,
      of fixed_clock rev "[(''10.0.0.5'', [''x.com''])]" fixed_clock rev]
  show ?thesis
    using registry_mapper_records d m q by blast
qed

text \<open>
  Claim C6, as the code has it.  After an analysis of a log against a registry whose
  records are dictionaries, the \<^verbatim>\<open>common_domains\<close> of every observed address is
  the list of the first five elements of that client's domain set of this run in the
  iteration order of the set, whatever it held before: at most five domains, distinct, all
  from the set.  The iteration order of the set is not the order in which the domains were
  met.
\<close>

theorem reconcile_replaces_common_domains:
  assumes "records_are_dicts (data self)"
      and "set_iter_ok set_iter"
      and "scan_lines lines ([], []) = Inr (device_activity, device_domains)"
      and "ip \<in> fst ` set device_activity"
  shows "\<exists>self' ds.
           analyze_dns_log clock set_iter (Some lines) self = (self', True) \<and>
           getitem_in2 (data self') ''devices'' ip ''common_domains'' = Inr (JList (map JStr ds)) \<and>
           ds = take 5 (set_iter (domains_of device_domains ip)) \<and>
           length ds = min 5 (length (domains_of device_domains ip)) \<and>
           distinct ds \<and>
           set ds \<subseteq> set (domains_of device_domains ip)"
proof -
  from assms(4) obtain c where c: "(ip, c) \<in> set device_activity" by auto
  from update_devices_ok[OF assms(1)] obtain self' where
    1: "update_devices clock set_iter device_domains device_activity self = (self', None)"
    by blast
  have a: "analyze_dns_log clock set_iter (Some lines) self = (self', True)"
    by (simp add: analyze_dns_log_def assms(3) 1)
  have "getitem_in2 (data self') ''devices'' ip ''common_domains'' =
      Inr (first5_domains set_iter device_domains ip)"
    using update_devices_done[OF 1 scan_lines_result(1)[OF assms(3)] c] by simp
  then have g: "getitem_in2 (data self') ''devices'' ip ''common_domains'' =
      Inr (JList (map JStr (take 5 (set_iter (domains_of device_domains ip)))))"
    by (simp add: first5_domains_def)
  from a g set_iter_ok_take5[OF assms(2) scan_lines_result(2)[OF assms(3)], of ip]
  show ?thesis by blast
qed

theorem reconcile_replaces_common_domains_witness:
  "records_are_dicts (data registry_mapper) \<and>
   set_iter_ok rev \<and>
   scan_lines [query_line ''10.0.0.5'' ''a.com'', query_line ''10.0.0.5'' ''b.com'',
               query_line ''10.0.0.5'' ''a.com''] ([], []) =
     Inr ([(''10.0.0.5'', 3)], [(''10.0.0.5'', [''a.com'', ''b.com''])]) \<and>
   ''10.0.0.5'' \<in> fst ` set [(''10.0.0.5'', 3::int)] \<and>
   (\<exists>self' ds.
      analyze_dns_log fixed_clock rev
          (Some [query_line ''10.0.0.5'' ''a.com'', query_line ''10.0.0.5'' ''b.com'',
                 query_line ''10.0.0.5'' ''a.com'']) registry_mapper = (self', True) \<and>
      getitem_in2 (data self') ''devices'' ''10.0.0.5'' ''common_domains'' = Inr (JList (map JStr ds)) \<and>
      ds = [''b.com'', ''a.com''])"
proof -
  have s: "scan_lines [query_line ''10.0.0.5'' ''a.com'', query_line ''10.0.0.5'' ''b.com'',
               query_line ''10.0.0.5'' ''a.com''] ([], []) =
     Inr ([(''10.0.0.5'', 3)], [(''10.0.0.5'', [''a.com'', ''b.com''])])"
    by (simp add: scan_defs)
  have i: "''10.0.0.5'' \<in> fst ` set [(''10.0.0.5'', 3::int)]" by simp
  have t: "take 5 (rev (domains_of [(''10.0.0.5'', [''a.com'', ''b.com''])] ''10.0.0.5'')) =
      [''b.com'', ''a.com'']"
    by (simp add: domains_of_def dict_get_def)
  from reconcile_replaces_common_domains[OF registry_mapper_records set_iter_ok_rev s i, of fixed_clock]
  show ?thesis
    unfolding t using registry_mapper_records set_iter_ok_rev s i by blast
qed

text \<open>
  The claim as the specification states it fails.  A client queries x.com and then y.com
  (a third line does not decode); with a set that iterates y.com before x.com, which a
  Python set of two strings may do, the stored list is y.com, x.com.
\<close>

theorem common_domains_order_counterexample:
  "set_iter_ok rev \<and>
   analyze_dns_log fixed_clock rev
      (Some [query_line ''192.168.1.10'' ''x.com'', query_line ''192.168.1.10'' ''y.com'', NotJson])
      empty_mapper =
   (\<lparr>device_map_file = ''device-map.json'',
     data = JObj [
       (''metadata'', JObj [
          (''last_updated'', JStr ''2025-01-01''),
          (''network_range'', JStr ''192.168.1.0/24''),
          (''total_devices'', JInt 0),
          (''source'', JStr ''Control D DNS log analysis'')]),
       (''devices'', JObj [
          (''192.168.1.10'', JObj [
             (''name'', JStr ''Auto-detected-10''),
             (''type'', JStr ''Unknown''),
             (''category'', JStr ''Unknown''),
             (''description'', JStr ''Auto-detected from DNS logs with 2 queries''),
             (''added'', JStr ''2025-01-01 10:00:00''),
             (''query_count'', JInt 2),
             (''common_domains'', JList [JStr ''y.com'', JStr ''x.com''])])]),
       (''network_insights'', JObj [
          (''device_types'', JObj []),
          (''top_services'', JObj []),
          (''activity_patterns'', JObj [])])]\<rparr>,
    True)"
proof -
  have s: "scan_lines [query_line ''192.168.1.10'' ''x.com'', query_line ''192.168.1.10'' ''y.com'', NotJson]
      ([], []) = Inr ([(''192.168.1.10'', 2)], [(''192.168.1.10'', [''x.com'', ''y.com''])])"
    by (simp add: scan_defs)
  show ?thesis
    by (simp add: set_iter_ok_rev analyze_dns_log_scanned[OF s] empty_mapper_def fixed_clock_def
        eval_defs)
qed

text \<open>
  Claim C8, as the code has it.  When the update of one observed address raises, the
  loop ends there: the mapper is as the addresses before it left it (the failing address
  and all later ones are not updated), and \<^verbatim>\<open>analyze_dns_log\<close> returns
  \<^verbatim>\<open>False\<close>.
\<close>

theorem reconcile_stops_at_first_failure:
  assumes "update_devices clock set_iter device_domains before self = (self1, None)"
      and "update_device clock set_iter device_domains ip c self1 = (self2, Some e)"
  shows "self2 = self1 \<and>
         update_devices clock set_iter device_domains (before @ (ip, c) # after) self = (self1, Some e) \<and>
         (scan_lines lines ([], []) = Inr (before @ (ip, c) # after, device_domains) \<longrightarrow>
            analyze_dns_log clock set_iter (Some lines) self = (self1, False))"
proof -
  from update_device_fails[OF assms(2)] have s: "self2 = self1" .
  have u: "update_devices clock set_iter device_domains (before @ (ip, c) # after) self = (self1, Some e)"
    using assms s by (simp add: update_devices_append)
  then show ?thesis
    using s by (simp add: analyze_dns_log_def)
qed

theorem reconcile_stops_at_first_failure_witness:
  "(\<exists>self1.
      update_devices fixed_clock rev
          [(''10.0.0.2'', [''b.com'']), (''10.0.0.1'', [''a.com'']), (''10.0.0.3'', [''c.com''])]
          [(''10.0.0.2'', 1)] broken_mapper = (self1, None) \<and>
      update_device fixed_clock rev
          [(''10.0.0.2'', [''b.com'']), (''10.0.0.1'', [''a.com'']), (''10.0.0.3'', [''c.com''])]
          ''10.0.0.1'' 1 self1 = (self1, Some TypeError) \<and>
      update_devices fixed_clock rev
          [(''10.0.0.2'', [''b.com'']), (''10.0.0.1'', [''a.com'']), (''10.0.0.3'', [''c.com''])]
          [(''10.0.0.2'', 1), (''10.0.0.1'', 1), (''10.0.0.3'', 1)] broken_mapper = (self1, Some TypeError) \<and>
      analyze_dns_log fixed_clock rev
          (Some [query_line ''10.0.0.2'' ''b.com'', query_line ''10.0.0.1'' ''a.com'',
                 query_line ''10.0.0.3'' ''c.com'']) broken_mapper = (self1, False) \<and>
      getitem_in2 (data self1) ''devices'' ''10.0.0.2'' ''query_count'' = Inr (JInt 1) \<and>
      getitem_in (data self1) ''devices'' ''10.0.0.1'' = Inr (JStr ''printer'') \<and>
      getitem_in2 (data self1) ''devices'' ''10.0.0.3'' ''query_count'' = Inl KeyError)"
proof -
  let ?doms = "[(''10.0.0.2'', [''b.com'']), (''10.0.0.1'', [''a.com'']), (''10.0.0.3'', [''c.com''])]"
  let ?self1 = "fst (update_devices fixed_clock rev ?doms [(''10.0.0.2'', 1)] broken_mapper)"
  have 1: "update_devices fixed_clock rev ?doms [(''10.0.0.2'', 1)] broken_mapper = (?self1, None)"
    by (simp add: broken_mapper_def eval_defs)
  have 2: "update_device fixed_clock rev ?doms ''10.0.0.1'' 1 ?self1 = (?self1, Some TypeError)"
    by (simp add: broken_mapper_def eval_defs)
  have s: "scan_lines [query_line ''10.0.0.2'' ''b.com'', query_line ''10.0.0.1'' ''a.com'',
                 query_line ''10.0.0.3'' ''c.com''] ([], []) =
      Inr ([(''10.0.0.2'', 1)] @ (''10.0.0.1'', 1) # [(''10.0.0.3'', 1)], ?doms)"
    by (simp add: scan_defs)
  have q: "getitem_in2 (data ?self1) ''devices'' ''10.0.0.2'' ''query_count'' = Inr (JInt 1)"
      "getitem_in (data ?self1) ''devices'' ''10.0.0.1'' = Inr (JStr ''printer'')"
      "getitem_in2 (data ?self1) ''devices'' ''10.0.0.3'' ''query_count'' = Inl KeyError"
    by (simp_all add: broken_mapper_def eval_defs)
  from reconcile_stops_at_first_failure[OF 1 2, of "[(''10.0.0.3'', 1)]"
      "[query_line ''10.0.0.2'' ''b.com'', query_line ''10.0.0.1'' ''a.com'', query_line ''10.0.0.3'' ''c.com'']"]
  have "update_devices fixed_clock rev ?doms ([(''10.0.0.2'', 1)] @ (''10.0.0.1'', 1) # [(''10.0.0.3'', 1)])
          broken_mapper = (?self1, Some TypeError)"
    and "analyze_dns_log fixed_clock rev
          (Some [query_line ''10.0.0.2'' ''b.com'', query_line ''10.0.0.1'' ''a.com'',
                 query_line ''10.0.0.3'' ''c.com'']) broken_mapper = (?self1, False)"
    using s by simp_all
  then show ?thesis
    using 1 2 q by (intro exI[of _ ?self1]) simp
qed

text \<open>
  The claim as the specification states it fails.  The record of 10.0.0.1 in the registry
  is a string; 10.0.0.1 and 10.0.0.2 are both observed.  Assigning the query count of
  10.0.0.1 raises, the run returns \<^verbatim>\<open>False\<close>, and 10.0.0.2 is not updated: it
  still has no query count.
\<close>

theorem one_bad_record_fails_the_run_counterexample:
  "scan_lines [query_line ''10.0.0.1'' ''a.com'', query_line ''10.0.0.2'' ''b.com''] ([], []) =
     Inr ([(''10.0.0.1'', 1), (''10.0.0.2'', 1)], [(''10.0.0.1'', [''a.com'']), (''10.0.0.2'', [''b.com''])]) \<and>
   analyze_dns_log fixed_clock rev
      (Some [query_line ''10.0.0.1'' ''a.com'', query_line ''10.0.0.2'' ''b.com'']) broken_mapper =
     (broken_mapper, False) \<and>
   getitem_in2 (data broken_mapper) ''devices'' ''10.0.0.2'' ''query_count'' = Inl KeyError"
proof -
  have s: "scan_lines [query_line ''10.0.0.1'' ''a.com'', query_line ''10.0.0.2'' ''b.com''] ([], []) =
     Inr ([(''10.0.0.1'', 1), (''10.0.0.2'', 1)], [(''10.0.0.1'', [''a.com'']), (''10.0.0.2'', [''b.com''])])"
    by (simp add: scan_defs)
  have a: "analyze_dns_log fixed_clock rev
      (Some [query_line ''10.0.0.1'' ''a.com'', query_line ''10.0.0.2'' ''b.com'']) broken_mapper =
     (broken_mapper, False)"
    by (simp add: analyze_dns_log_scanned[OF s] broken_mapper_def eval_defs)
  have q: "getitem_in2 (data broken_mapper) ''devices'' ''10.0.0.2'' ''query_count'' = Inl KeyError"
    by (simp add: broken_mapper_def eval_defs)
  from s a q show ?thesis by simp
qed

subsection \<open>The routing table\<close>

text \<open>
  Claim C9.  For a registry whose device records are dictionaries (with a list as
  \<^verbatim>\<open>common_domains\<close>, where they have one), \<^verbatim>\<open>generate_routing_table\<close>
  returns one entry per device, in the ascending order of the addresses as strings; the
  entry of a device holds its address, its name, type and category, its query count as
  activity, the first three of its common domains, and its \<^verbatim>\<open>added\<close> time as
  last seen (an absent entry of the record is replaced by Unknown, 0 or the empty list).
  As strings, 192.168.1.10 comes before 192.168.1.9.
\<close>

theorem routing_table_sorted_entries:
  assumes "py_getitem (data self) ''devices'' = Inr (JObj devs)"
      and "distinct (map fst devs)"
      and "list_all is_device_record (map snd devs)"
  shows "\<exists>table.
     generate_routing_table self = Inr table \<and>
     length table = length devs \<and>
     map (\<lambda>entry. py_getitem entry ''ip'') table = map (\<lambda>ip. Inr (JStr ip)) (sort (map fst devs)) \<and>
     (\<forall>i<length devs. \<exists>ip flds ds.
        sort_key fst devs ! i = (ip, JObj flds) \<and>
        dict_get flds ''common_domains'' (JList []) = JList ds \<and>
        table ! i = JObj [
          (''ip'', JStr ip),
          (''name'', dict_get flds ''name'' (JStr ''Unknown'')),
          (''type'', dict_get flds ''type'' (JStr ''Unknown'')),
          (''category'', dict_get flds ''category'' (JStr ''Unknown'')),
          (''activity'', dict_get flds ''query_count'' (JInt 0)),
          (''top_domains'', JList (take 3 ds)),
          (''last_seen'', dict_get flds ''added'' (JStr ''Unknown''))])"
proof -
  let ?R = "\<lambda>item entry. \<exists>ip flds ds. item = (ip, JObj flds) \<and>
        dict_get flds ''common_domains'' (JList []) = JList ds \<and>
        entry = JObj [
          (''ip'', JStr ip),
          (''name'', dict_get flds ''name'' (JStr ''Unknown'')),
          (''type'', dict_get flds ''type'' (JStr ''Unknown'')),
          (''category'', dict_get flds ''category'' (JStr ''Unknown'')),
          (''activity'', dict_get flds ''query_count'' (JInt 0)),
          (''top_domains'', JList (take 3 ds)),
          (''last_seen'', dict_get flds ''added'' (JStr ''Unknown''))]"
  have "list_all is_device_record (map snd (sort_key fst devs))"
    using assms(3) by (simp add: list_all_sort_key)
  from table_loop_ok[OF this, of "[]"] obtain table where
    t: "table_loop (sort_key fst devs) [] = Inr table" and r: "list_all2 ?R (sort_key fst devs) table"
    by auto
  have g: "generate_routing_table self = Inr table"
    by (simp add: generate_routing_table_def assms(1) t)
  from r have len: "length table = length devs"
    by (auto dest: list_all2_lengthD)
  from r have nth: "\<forall>i<length devs. ?R (sort_key fst devs ! i) (table ! i)"
    by (auto simp: list_all2_conv_all_nth)
  have "map (\<lambda>entry. py_getitem entry ''ip'') table = map (\<lambda>item. Inr (JStr (fst item))) (sort_key fst devs)"
    using r by (induction rule: list_all2_induct) auto
  also have "\<dots> = map (\<lambda>ip. Inr (JStr ip)) (map fst (sort_key fst devs))"
    by simp
  also have "map fst (sort_key fst devs) = sort (map fst devs)"
    by (rule map_sort_key)
  finally have ips: "map (\<lambda>entry. py_getitem entry ''ip'') table = map (\<lambda>ip. Inr (JStr ip)) (sort (map fst devs))" .
  from g len ips nth show ?thesis by blast
qed

theorem routing_table_sorted_entries_witness:
  "py_getitem (data lan_mapper) ''devices'' =
     Inr (JObj [
        (''192.168.1.9'', JObj [
           (''name'', JStr ''Laptop''),
           (''type'', JStr ''Computer''),
           (''category'', JStr ''Office''),
           (''description'', JStr ''''),
           (''added'', JStr ''2025-01-01 09:00:00''),
           (''query_count'', JInt 12),
           (''common_domains'', JList [JStr ''a.com'', JStr ''b.com'', JStr ''c.com'', JStr ''d.com''])]),
        (''192.168.1.10'', JObj [
           (''name'', JStr ''Phone''),
           (''type'', JStr ''Mobile''),
           (''category'', JStr ''Personal''),
           (''description'', JStr ''''),
           (''added'', JStr ''2025-01-02 08:00:00'')])]) \<and>
   ''192.168.1.10'' < ''192.168.1.9'' \<and>
   generate_routing_table lan_mapper =
     Inr [JObj [
            (''ip'', JStr ''192.168.1.10''),
            (''name'', JStr ''Phone''),
            (''type'', JStr ''Mobile''),
            (''category'', JStr ''Personal''),
            (''activity'', JInt 0),
            (''top_domains'', JList []),
            (''last_seen'', JStr ''2025-01-02 08:00:00'')],
          JObj [
            (''ip'', JStr ''192.168.1.9''),
            (''name'', JStr ''Laptop''),
            (''type'', JStr ''Computer''),
            (''category'', JStr ''Office''),
            (''activity'', JInt 12),
            (''top_domains'', JList [JStr ''a.com'', JStr ''b.com'', JStr ''c.com'']),
            (''last_seen'', JStr ''2025-01-01 09:00:00'')]]"
proof -
  let ?devs = "[
        (''192.168.1.9'', JObj [
           (''name'', JStr ''Laptop''),
           (''type'', JStr ''Computer''),
           (''category'', JStr ''Office''),
           (''description'', JStr ''''),
           (''added'', JStr ''2025-01-01 09:00:00''),
           (''query_count'', JInt 12),
           (''common_domains'', JList [JStr ''a.com'', JStr ''b.com'', JStr ''c.com'', JStr ''d.com''])]),
        (''192.168.1.10'', JObj [
           (''name'', JStr ''Phone''),
           (''type'', JStr ''Mobile''),
           (''category'', JStr ''Personal''),
           (''description'', JStr ''''),
           (''added'', JStr ''2025-01-02 08:00:00'')])]"
  have d: "py_getitem (data lan_mapper) ''devices'' = Inr (JObj ?devs)"
    by (simp add: lan_mapper_def)
  have k: "distinct (map fst ?devs)" by simp
  have r: "list_all is_device_record (map snd ?devs)"
    by (simp add: is_device_record_def dict_get_def)
  have o: "sort_key fst ?devs = [?devs ! 1, ?devs ! 0]" by simp
  from routing_table_sorted_entries[OF d k r] obtain table where
    t: "generate_routing_table lan_mapper = Inr table" "length table = length ?devs"
    and e: "\<forall>i<length ?devs. \<exists>ip flds ds.
        sort_key fst ?devs ! i = (ip, JObj flds) \<and>
        dict_get flds ''common_domains'' (JList []) = JList ds \<and>
        table ! i = JObj [
          (''ip'', JStr ip),
          (''name'', dict_get flds ''name'' (JStr ''Unknown'')),
          (''type'', dict_get flds ''type'' (JStr ''Unknown'')),
          (''category'', dict_get flds ''category'' (JStr ''Unknown'')),
          (''activity'', dict_get flds ''query_count'' (JInt 0)),
          (''top_domains'', JList (take 3 ds)),
          (''last_seen'', dict_get flds ''added'' (JStr ''Unknown''))]"
    by blast
  have l: "0 < length ?devs" "1 < length ?devs" by simp_all
  from e l(1) have "\<exists>ip flds ds.
        sort_key fst ?devs ! 0 = (ip, JObj flds) \<and>
        dict_get flds ''common_domains'' (JList []) = JList ds \<and>
        table ! 0 = JObj [
          (''ip'', JStr ip),
          (''name'', dict_get flds ''name'' (JStr ''Unknown'')),
          (''type'', dict_get flds ''type'' (JStr ''Unknown'')),
          (''category'', dict_get flds ''category'' (JStr ''Unknown'')),
          (''activity'', dict_get flds ''query_count'' (JInt 0)),
          (''top_domains'', JList (take 3 ds)),
          (''last_seen'', dict_get flds ''added'' (JStr ''Unknown''))]"
    by blast
  then have e0: "table ! 0 = JObj [
            (''ip'', JStr ''192.168.1.10''),
            (''name'', JStr ''Phone''),
            (''type'', JStr ''Mobile''),
            (''category'', JStr ''Personal''),
            (''activity'', JInt 0),
            (''top_domains'', JList []),
            (''last_seen'', JStr ''2025-01-02 08:00:00'')]"
    unfolding o by (auto simp: dict_get_def)
  from e l(2) have "\<exists>ip flds ds.
        sort_key fst ?devs ! 1 = (ip, JObj flds) \<and>
        dict_get flds ''common_domains'' (JList []) = JList ds \<and>
        table ! 1 = JObj [
          (''ip'', JStr ip),
          (''name'', dict_get flds ''name'' (JStr ''Unknown'')),
          (''type'', dict_get flds ''type'' (JStr ''Unknown'')),
          (''category'', dict_get flds ''category'' (JStr ''Unknown'')),
          (''activity'', dict_get flds ''query_count'' (JInt 0)),
          (''top_domains'', JList (take 3 ds)),
          (''last_seen'', dict_get flds ''added'' (JStr ''Unknown''))]"
    by blast
  then have e1: "table ! 1 = JObj [
            (''ip'', JStr ''192.168.1.9''),
            (''name'', JStr ''Laptop''),
            (''type'', JStr ''Computer''),
            (''category'', JStr ''Office''),
            (''activity'', JInt 12),
            (''top_domains'', JList [JStr ''a.com'', JStr ''b.com'', JStr ''c.com'']),
            (''last_seen'', JStr ''2025-01-01 09:00:00'')]"
    unfolding o by (auto simp: dict_get_def)
  from t(2) have "table = [table ! 0, table ! 1]"
    by (cases table; cases "tl table"; cases "tl (tl table)") auto
  with e0 e1 t(1) have "generate_routing_table lan_mapper =
     Inr [JObj [
            (''ip'', JStr ''192.168.1.10''),
            (''name'', JStr ''Phone''),
            (''type'', JStr ''Mobile''),
            (''category'', JStr ''Personal''),
            (''activity'', JInt 0),
            (''top_domains'', JList []),
            (''last_seen'', JStr ''2025-01-02 08:00:00'')],
          JObj [
            (''ip'', JStr ''192.168.1.9''),
            (''name'', JStr ''Laptop''),
            (''type'', JStr ''Computer''),
            (''category'', JStr ''Office''),
            (''activity'', JInt 12),
            (''top_domains'', JList [JStr ''a.com'', JStr ''b.com'', JStr ''c.com'']),
            (''last_seen'', JStr ''2025-01-01 09:00:00'')]]"
    by simp
  with d string_order_is_not_numeric show ?thesis by simp
qed

subsection \<open>What reconciliation leaves alone\<close>

text \<open>
  Claim C10.  Whatever the registry holds and however the loop ends, a device whose
  address is not among the observed ones has the record it had before, every top-level
  entry of the DeviceMap other than the device dictionary (the metadata among them) is
  unchanged, and so is the file name.
\<close>

theorem reconcile_leaves_unobserved_devices:
  assumes "update_devices clock set_iter device_domains device_activity self = (self', r)"
      and "ip \<notin> fst ` set device_activity"
  shows "getitem_in (data self') ''devices'' ip = getitem_in (data self) ''devices'' ip \<and>
         (\<forall>k. k \<noteq> ''devices'' \<longrightarrow> py_getitem (data self') k = py_getitem (data self) k) \<and>
         device_map_file self' = device_map_file self"
  using update_devices_frame[OF assms] by blast

theorem reconcile_leaves_unobserved_devices_witness:
  "''10.0.0.5'' \<notin> fst ` set [(''10.0.0.9'', 2::int)] \<and>
   (\<exists>self' r.
      update_devices fixed_clock rev [(''10.0.0.9'', [''z.com''])] [(''10.0.0.9'', 2)] registry_mapper =
        (self', r) \<and>
      getitem_in2 (data self') ''devices'' ''10.0.0.9'' ''query_count'' = Inr (JInt 2) \<and>
      getitem_in (data self') ''devices'' ''10.0.0.5'' =
        Inr (JObj [
          (''name'', JStr ''Auto-detected-5''),
          (''type'', JStr ''Unknown''),
          (''category'', JStr ''Unknown''),
          (''description'', JStr ''Auto-detected from DNS logs with 7 queries''),
          (''added'', JStr ''2025-01-01 10:00:00''),
          (''query_count'', JInt 7),
          (''common_domains'', JList [JStr ''x.com''])]) \<and>
      py_getitem (data self') ''metadata'' = py_getitem registry_doc ''metadata'')"
proof -
  have n: "''10.0.0.5'' \<notin> fst ` set [(''10.0.0.9'', 2::int)]" by simp
  obtain self' r where u:
    "update_devices fixed_clock rev [(''10.0.0.9'', [''z.com''])] [(''10.0.0.9'', 2)] registry_mapper = (self', r)"
    by (cases "update_devices fixed_clock rev [(''10.0.0.9'', [''z.com''])] [(''10.0.0.9'', 2)] registry_mapper")
  have q: "getitem_in2 (data self') ''devices'' ''10.0.0.9'' ''query_count'' = Inr (JInt 2)"
    using u by (auto simp: registry_mapper_eq registry_doc_def eval_defs)
  have b: "getitem_in (data registry_mapper) ''devices'' ''10.0.0.5'' =
        Inr (JObj [
          (''name'', JStr ''Auto-detected-5''),
          (''type'', JStr ''Unknown''),
          (''category'', JStr ''Unknown''),
          (''description'', JStr ''Auto-detected from DNS logs with 7 queries''),
          (''added'', JStr ''2025-01-01 10:00:00''),
          (''query_count'', JInt 7),
          (''common_domains'', JList [JStr ''x.com''])])"
    by (simp add: registry_mapper_eq registry_doc_def getitem_in_def)
  have m: "py_getitem (data registry_mapper) ''metadata'' = py_getitem registry_doc ''metadata''"
    by (simp add: registry_mapper_eq)
  from reconcile_leaves_unobserved_devices[OF u n] b m q u n show ?thesis
    by auto
qed

end
